theory Spec2Isabelle
  imports Complex_Main "HOL-Library.Sublist" "HOL-Library.Log_Nat"
begin

section \<open>brewpyenv: the migration utilities of \<^verbatim>\<open>util.mjs\<close>\<close>

text \<open>
  The module migrates the Python installations of a workstation from Homebrew to pyenv.
  Its pure functions decide what to migrate; its asynchronous functions run external
  commands through Bun's shell primitive \<^verbatim>\<open>$\<close>, write to a winston logger and append to
  a shell profile. The pure functions are embedded as HOL functions over strings and
  records; the asynchronous ones as state-passing functions over an explicit world that
  records every observable effect in the order it happens.

  A JavaScript string is modelled as a \<^typ>\<open>string\<close>: a list of characters, one per code
  unit. A JavaScript array is a list.
\<close>

subsection \<open>Library functions of the language\<close>

text \<open>\<^verbatim>\<open>s.startsWith(p)\<close>: the code units of \<open>p\<close> are the first code units of \<open>s\<close>.\<close>

fun startsWith :: "string \<Rightarrow> string \<Rightarrow> bool" where
  "startsWith s [] = True"
| "startsWith [] (p # ps) = False"
| "startsWith (c # cs) (p # ps) = (c = p \<and> startsWith cs ps)"

text \<open>\<^verbatim>\<open>xs.some(f)\<close>: stops at the first element that satisfies \<open>f\<close>.\<close>

primrec some :: "('a \<Rightarrow> bool) \<Rightarrow> 'a list \<Rightarrow> bool" where
  "some f [] = False"
| "some f (x # xs) = (if f x then True else some f xs)"

text \<open>\<^verbatim>\<open>xs.flatMap(f)\<close> for a callback that returns arrays: one level is flattened.\<close>

definition flatMap :: "('a \<Rightarrow> 'b list) \<Rightarrow> 'a list \<Rightarrow> 'b list" where
  "flatMap f xs = concat (map f xs)"

text \<open>
  \<^verbatim>\<open>new Set(xs)\<close> adds the elements of \<open>xs\<close> one by one; a \<^verbatim>\<open>Set\<close> keeps its members in
  insertion order and ignores the insertion of a member it already has. The set is
  modelled by the list of its members in insertion order, which is also what the spread
  \<^verbatim>\<open>[...set]\<close> yields.
\<close>

definition Set_add :: "'a list \<Rightarrow> 'a \<Rightarrow> 'a list" where
  "Set_add s v = (if v \<in> set s then s else s @ [v])"

definition new_Set :: "'a list \<Rightarrow> 'a list" where
  "new_Set xs = foldl Set_add [] xs"

text \<open>
  \<^verbatim>\<open>s.replace(pattern, replacement)\<close> with a string pattern: the first place where the
  pattern occurs, scanning from the left, is replaced; nothing else is. (The special
  \<^verbatim>\<open>$\<close> patterns of a replacement string are left out: the only replacement the source
  uses is the empty string.)
\<close>

fun replace :: "string \<Rightarrow> string \<Rightarrow> string \<Rightarrow> string" where
  "replace [] pat rep = (if pat = [] then rep else [])"
| "replace (c # cs) pat rep =
     (if startsWith (c # cs) pat then rep @ drop (length pat) (c # cs)
      else c # replace cs pat rep)"

text \<open>
  \<^verbatim>\<open>s.split(sep)\<close> for a separator of one character: the pieces between the separators,
  empty pieces included; the empty string gives one empty piece. \<open>split_from\<close> carries
  the piece read so far.
\<close>

fun split_from :: "string \<Rightarrow> char \<Rightarrow> string \<Rightarrow> string list" where
  "split_from piece sep [] = [piece]"
| "split_from piece sep (c # cs) =
     (if c = sep then piece # split_from [] sep cs else split_from (piece @ [c]) sep cs)"

definition split_str :: "string \<Rightarrow> char \<Rightarrow> string list" where
  "split_str s sep = split_from [] sep s"

text \<open>\<^verbatim>\<open>Boolean(s)\<close> on a string: only the empty string is falsy.\<close>

definition Boolean :: "string \<Rightarrow> bool" where
  "Boolean s = (s \<noteq> [])"

text \<open>\<^verbatim>\<open>xs.join(sep)\<close>.\<close>

fun join_str :: "string list \<Rightarrow> string \<Rightarrow> string" where
  "join_str [] sep = []"
| "join_str [x] sep = x"
| "join_str (x # y # ys) sep = x @ sep @ join_str (y # ys) sep"

subsection \<open>The path module\<close>

text \<open>
  \<^verbatim>\<open>path.basename\<close> and \<^verbatim>\<open>path.join\<close> of \<^verbatim>\<open>node:path\<close>, in their POSIX form (the
  tool runs where Homebrew does). \<open>basename\<close> ignores trailing slashes and returns what
  follows the last remaining slash. \<open>join\<close> puts a slash between its non-empty arguments
  and normalises the result: empty segments and \<^verbatim>\<open>.\<close> segments are dropped, a \<^verbatim>\<open>..\<close>
  segment removes the segment before it (above the start of a relative path it is kept,
  above the root it is dropped), a leading slash and a trailing slash are kept, and an
  empty result is \<^verbatim>\<open>.\<close>. The library scans the characters; the model works on the
  segments between the slashes.
\<close>

definition basename :: "string \<Rightarrow> string" where
  "basename path =
     (let trimmed = dropWhile (\<lambda>c. c = CHR ''/'') (rev path)
      in rev (takeWhile (\<lambda>c. c \<noteq> CHR ''/'') trimmed))"

definition normalize_segment :: "bool \<Rightarrow> string list \<Rightarrow> string \<Rightarrow> string list" where
  "normalize_segment allowAboveRoot res seg =
     (if seg = [] \<or> seg = ''.'' then res
      else if seg = ''..'' then
        (if res \<noteq> [] \<and> last res \<noteq> ''..'' then butlast res
         else if allowAboveRoot then res @ [''..'']
         else res)
      else res @ [seg])"

definition normalizeString :: "string \<Rightarrow> bool \<Rightarrow> string" where
  "normalizeString path allowAboveRoot =
     join_str (foldl (normalize_segment allowAboveRoot) [] (split_str path CHR ''/'')) ''/''"

definition path_normalize :: "string \<Rightarrow> string" where
  "path_normalize path =
     (if path = [] then ''.''
      else
        let isAbsolute = (hd path = CHR ''/'');
            trailingSeparator = (last path = CHR ''/'');
            res = normalizeString path (\<not> isAbsolute)
        in if res = []
           then (if isAbsolute then ''/'' else if trailingSeparator then ''./'' else ''.'')
           else (if isAbsolute then ''/'' else [])
                @ res @ (if trailingSeparator then ''/'' else []))"

definition path_join :: "string list \<Rightarrow> string" where
  "path_join args =
     (let used = filter (\<lambda>arg. arg \<noteq> []) args
      in if used = [] then ''.'' else path_normalize (join_str used ''/''))"

subsection \<open>Values read from JSON\<close>

text \<open>
  The value \<^verbatim>\<open>.json()\<close> yields, and \<^verbatim>\<open>undefined\<close>, which reading an absent property or
  element yields. An object is the list of its properties, each key once.
\<close>

datatype js = JUndefined | JNull | JBoolean bool | JNumber real | JString string
  | JArray "js list" | JObject "(string \<times> js) list"

datatype js_error = ShellError nat | SyntaxError | TypeError | SystemError

text \<open>
  \<^verbatim>\<open>v.key\<close> for a key that no built-in of strings or arrays has (the source reads
  \<^verbatim>\<open>formulae\<close>), and \<^verbatim>\<open>v[0]\<close>. Reading from \<^verbatim>\<open>undefined\<close> or \<^verbatim>\<open>null\<close> throws a
  TypeError; reading what is absent yields \<^verbatim>\<open>undefined\<close>.
\<close>

fun get_property :: "js \<Rightarrow> string \<Rightarrow> js_error + js" where
  "get_property JUndefined key = Inl TypeError"
| "get_property JNull key = Inl TypeError"
| "get_property (JObject props) key =
     Inr (case map_of props key of None \<Rightarrow> JUndefined | Some v \<Rightarrow> v)"
| "get_property v key = Inr JUndefined"

fun get_element0 :: "js \<Rightarrow> js_error + js" where
  "get_element0 JUndefined = Inl TypeError"
| "get_element0 JNull = Inl TypeError"
| "get_element0 (JArray xs) = Inr (case xs of [] \<Rightarrow> JUndefined | x # _ \<Rightarrow> x)"
| "get_element0 (JString s) = Inr (case s of [] \<Rightarrow> JUndefined | c # _ \<Rightarrow> JString [c])"
| "get_element0 (JObject props) =
     Inr (case map_of props ''0'' of None \<Rightarrow> JUndefined | Some v \<Rightarrow> v)"
| "get_element0 v = Inr JUndefined"

subsection \<open>The world: command gateway, logger and filesystem\<close>

text \<open>
  A call of the tagged template \<^verbatim>\<open>$\<close> is identified by its template: the literal
  chunks and the interpolated values between them, in order.
\<close>

datatype part = Lit string | Val string

type_synonym command = "part list"

record process =
  exitCode :: nat
  stdout :: string

text \<open>
  Every observable effect is an event, and the world keeps the events in the order
  they happen, together with the contents of the files.
\<close>

datatype event = Shell command | LogInfo string | AppendFile string string

record world =
  trace :: "event list"
  files :: "string \<Rightarrow> string option"

text \<open>
  What the program does not control: how the external process of a command ends and
  what it prints, what \<^verbatim>\<open>JSON.parse\<close> makes of a text (\<open>None\<close>: a SyntaxError), and
  whether a path can be appended to.
\<close>

record environment =
  run :: "command \<Rightarrow> process"
  JSON_parse :: "string \<Rightarrow> js option"
  writable :: "string \<Rightarrow> bool"

text \<open>
  Awaiting \<^verbatim>\<open>$`...`\<close>, also with \<^verbatim>\<open>.quiet()\<close> or \<^verbatim>\<open>.text()\<close>: the command runs, and the
  promise rejects with a ShellError when the process exits with a status other than
  zero. That is Bun's default; \<^verbatim>\<open>.nothrow()\<close> would switch it off, and the source never
  calls it. \<^verbatim>\<open>.quiet()\<close> and a redirection inside the command only change where the
  output goes. On success the value is the standard output.
\<close>

definition shell :: "environment \<Rightarrow> command \<Rightarrow> world \<Rightarrow> (js_error + string) \<times> world" where
  "shell env cmd w =
     (let p = run env cmd;
          w' = w\<lparr>trace := trace w @ [Shell cmd]\<rparr>
      in if exitCode p \<noteq> 0 then (Inl (ShellError (exitCode p)), w')
         else (Inr (stdout p), w'))"

text \<open>\<^verbatim>\<open>.json()\<close>: the standard output, parsed.\<close>

definition shell_json :: "environment \<Rightarrow> command \<Rightarrow> world \<Rightarrow> (js_error + js) \<times> world" where
  "shell_json env cmd w =
     (case shell env cmd w of
        (Inl e, w') \<Rightarrow> (Inl e, w')
      | (Inr out, w') \<Rightarrow>
          (case JSON_parse env out of
             None \<Rightarrow> (Inl SyntaxError, w')
           | Some v \<Rightarrow> (Inr v, w')))"

definition logger_info :: "string \<Rightarrow> world \<Rightarrow> world" where
  "logger_info message w = w\<lparr>trace := trace w @ [LogInfo message]\<rparr>"

text \<open>\<^verbatim>\<open>appendFile(path, data)\<close>: the file is created when it does not exist.\<close>

definition appendFile :: "environment \<Rightarrow> string \<Rightarrow> string \<Rightarrow> world \<Rightarrow> (js_error + unit) \<times> world"
  where
  "appendFile env path data w =
     (if writable env path
      then (Inr (),
            w\<lparr>trace := trace w @ [AppendFile path data],
              files := (files w)(path \<mapsto>
                 (case files w path of None \<Rightarrow> [] | Some old \<Rightarrow> old) @ data)\<rparr>)
      else (Inl SystemError, w))"

subsection \<open>Numbers\<close>

text \<open>
  A JavaScript number is an IEEE-754 binary64 value. The finite ones are the numbers
  m * 2^e with an integer m of magnitude below 2^53 and -1074 \<le> e \<le> 971. An
  arithmetic operation returns the value nearest to the exact result, a tie going to
  the even significand, and an infinity when that value reaches 2^1024 in
  magnitude. (The sign of a zero and NaN are left out: no operation below produces a
  NaN from finite operands, and a zero compares the same with either sign.)
\<close>

datatype number = Finite real | PlusInfinity | MinusInfinity

text \<open>The exponent e with 2^e \<le> x < 2^(e+1), for a positive x.\<close>

definition ilog2 :: "real \<Rightarrow> int" where
  "ilog2 x = (if 1 \<le> x then bitlen \<lfloor>x\<rfloor> - 1 else - bitlen (\<lceil>1 / x\<rceil> - 1))"

text \<open>The nearest integer; of two nearest integers the even one.\<close>

definition round_half_even :: "real \<Rightarrow> int" where
  "round_half_even y =
     (let f = \<lfloor>y\<rfloor>; r = y - of_int f
      in if r < 1 / 2 then f else if 1 / 2 < r then f + 1 else if even f then f else f + 1)"

text \<open>
  The binary64 value of an exact result \<open>x\<close>: \<open>x\<close> is rounded to a multiple of the unit
  in its last place, which is 2^e for e 52 below the exponent of \<open>x\<close> and not below
  -1074.
\<close>

definition binary64 :: "real \<Rightarrow> number" where
  "binary64 x =
     (if x = 0 then Finite 0
      else
        let e = max (ilog2 \<bar>x\<bar> - 52) (- 1074);
            v = (if 0 \<le> e then of_int (round_half_even (x / 2 ^ nat e)) * 2 ^ nat e
                 else of_int (round_half_even (x * 2 ^ nat (- e))) / 2 ^ nat (- e))
        in if 2 ^ 1024 \<le> \<bar>v\<bar> then (if 0 < x then PlusInfinity else MinusInfinity)
           else Finite v)"

text \<open>An integer that is a number: the program can hold it.\<close>

definition is_double :: "int \<Rightarrow> bool" where
  "is_double n = (binary64 (of_int n) = Finite (of_int n))"

subsection \<open>Time and cache utility\<close>

text \<open>
  \<^verbatim>\<open>
  function getDaysOld(lastModified, currentTime = Date.now()) {
    return Math.floor((currentTime - lastModified) / (1000 * 60 * 60 * 24));
  }
  function isCacheValid(lastModified, expiryDays) {
    return getDaysOld(lastModified) < expiryDays;
  }
  \<close>
  The timestamps are integers that are numbers (epoch milliseconds). The difference
  and the quotient are binary64 operations, each rounding its exact result; the
  divisor is the exact product 86400000; \<open>Math.floor\<close> and the comparison are exact. An
  infinite difference stays infinite through the division and the floor.
  \<open>isCacheValid\<close> leaves \<open>currentTime\<close> to its default, the clock reading
  \<^verbatim>\<open>Date.now()\<close> at the call: the model takes that reading as the argument \<open>now\<close>.
\<close>

definition getDaysOld :: "int \<Rightarrow> int \<Rightarrow> number" where
  "getDaysOld lastModified currentTime =
     (case binary64 (of_int currentTime - of_int lastModified) of
        Finite elapsed \<Rightarrow>
          (case binary64 (elapsed / (1000 * 60 * 60 * 24)) of
             Finite ratio \<Rightarrow> Finite (of_int \<lfloor>ratio\<rfloor>)
           | PlusInfinity \<Rightarrow> PlusInfinity
           | MinusInfinity \<Rightarrow> MinusInfinity)
      | PlusInfinity \<Rightarrow> PlusInfinity
      | MinusInfinity \<Rightarrow> MinusInfinity)"

definition isCacheValid :: "int \<Rightarrow> int \<Rightarrow> int \<Rightarrow> bool" where
  "isCacheValid now lastModified expiryDays =
     (case getDaysOld lastModified now of
        Finite days \<Rightarrow> days < of_int expiryDays
      | PlusInfinity \<Rightarrow> False
      | MinusInfinity \<Rightarrow> True)"

subsection \<open>Formulae and classified packages\<close>

text \<open>
  A formula as the classifier reads it: \<^verbatim>\<open>formula.name\<close>, \<^verbatim>\<open>formula.versions.stable\<close>
  and \<^verbatim>\<open>formula.dependencies\<close>. Records are extensible, as the objects are: a formula
  may carry further fields, which the classifier drops.
\<close>

record versions =
  stable :: string

record formula =
  name :: string
  versions :: versions
  dependencies :: "string list"

record package =
  name :: string
  version :: string
  dependencies :: "string list"

text \<open>
  \<^verbatim>\<open>
  function identifyBrewPythonPackages(formulae) {
    return formulae
      .filter((formula) => formula.dependencies.some((dep) => dep.startsWith("python@")))
      .map((formula) => ({
        name: formula.name,
        version: formula.versions.stable,
        dependencies: formula.dependencies,
      }));
  }
  \<close>
\<close>

definition identifyBrewPythonPackages :: "'a formula_scheme list \<Rightarrow> package list" where
  "identifyBrewPythonPackages formulae =
     map (\<lambda>formula. \<lparr>package.name = formula.name formula,
                     version = stable (formula.versions formula),
                     package.dependencies = formula.dependencies formula\<rparr>)
       (filter (\<lambda>formula. some (\<lambda>dep. startsWith dep ''python@'') (formula.dependencies formula))
          formulae)"

text \<open>
  \<^verbatim>\<open>
  function extractPythonVersions(packages) {
    const versions = packages.flatMap((pkg) =>
      pkg.dependencies.filter((dep) => dep.startsWith("python@"))
    );
    return [...new Set(versions)];
  }
  \<close>
\<close>

definition extractPythonVersions :: "'a package_scheme list \<Rightarrow> string list" where
  "extractPythonVersions packages =
     (let versions = flatMap (\<lambda>pkg. filter (\<lambda>dep. startsWith dep ''python@'')
                                       (package.dependencies pkg)) packages
      in new_Set versions)"

subsection \<open>Symlink command builder\<close>

text \<open>
  \<^verbatim>\<open>
  function generateSymlinkCommands(pythonDirs, pyenvRoot) {
    return pythonDirs.map((versionPath) => {
      const versionName = path.basename(versionPath);
      return `ln -s -f ${versionPath} ${path.join(pyenvRoot, "versions", `${versionName}-brew`)}`;
    });
  }
  \<close>
\<close>

definition generateSymlinkCommands :: "string list \<Rightarrow> string \<Rightarrow> string list" where
  "generateSymlinkCommands pythonDirs pyenvRoot =
     map (\<lambda>versionPath.
            let versionName = basename versionPath
            in ''ln -s -f '' @ versionPath @ '' '' @
               path_join [pyenvRoot, ''versions'', versionName @ ''-brew''])
       pythonDirs"

subsection \<open>Asynchronous operations\<close>

text \<open>
  Each function takes the environment and the world and returns its result with the
  new world. \<open>Inl\<close> is a rejected promise: an \<^verbatim>\<open>await\<close> outside any \<^verbatim>\<open>try\<close> passes the
  rejection on, which ends the function, so the rest of a loop does not run.

  \<^verbatim>\<open>
  async function fetchBrewFormulae() {
    const formulaList = (await $`brew list --formula`.text()).split("\n").filter(Boolean);
    const formulae = [];
    for (const formula of formulaList) {
      const info = await $`brew info ${formula} --json=v2 2>/dev/null`.json();
      formulae.push(info.formulae[0]);
    }
    return formulae;
  }
  \<close>
\<close>

fun fetchBrewFormulae_for :: "environment \<Rightarrow> string list \<Rightarrow> js list \<Rightarrow> world
    \<Rightarrow> (js_error + js list) \<times> world" where
  "fetchBrewFormulae_for env [] formulae w = (Inr formulae, w)"
| "fetchBrewFormulae_for env (formula # formulaList) formulae w =
     (case shell_json env [Lit ''brew info '', Val formula, Lit '' --json=v2 2>/dev/null''] w of
        (Inl e, w') \<Rightarrow> (Inl e, w')
      | (Inr info, w') \<Rightarrow>
          (case get_property info ''formulae'' of
             Inl e \<Rightarrow> (Inl e, w')
           | Inr fs \<Rightarrow>
               (case get_element0 fs of
                  Inl e \<Rightarrow> (Inl e, w')
                | Inr f \<Rightarrow> fetchBrewFormulae_for env formulaList (formulae @ [f]) w')))"

definition fetchBrewFormulae :: "environment \<Rightarrow> world \<Rightarrow> (js_error + js list) \<times> world" where
  "fetchBrewFormulae env w =
     (case shell env [Lit ''brew list --formula''] w of
        (Inl e, w') \<Rightarrow> (Inl e, w')
      | (Inr out, w') \<Rightarrow>
          (let formulaList = filter Boolean (split_str out CHR 0x0A)
           in fetchBrewFormulae_for env formulaList [] w'))"

text \<open>
  \<^verbatim>\<open>
  async function installPyenvVersions(pythonVersions) {
    const pyenvInstallPromises = pythonVersions.map((version) => {
      const pyVersion = version.replace("python@", "");
      return $`pyenv install -s ${pyVersion}`;
    });
    await Promise.all(pyenvInstallPromises);
    logger.info("Installed equivalent pyenv-managed Python versions.");
  }
  \<close>
  All commands are issued, in the order of the list, before anything is awaited.
  \<^verbatim>\<open>Promise.all\<close> rejects when one of them does, with the rejection that happens first;
  which one that is depends on how long the processes run. The model does not choose:
  a rejected call returns the rejections of all the commands that fail, in the order
  of the list, and the one reported is one of them.
\<close>

definition installPyenvVersions :: "environment \<Rightarrow> string list \<Rightarrow> world
    \<Rightarrow> (js_error list + unit) \<times> world" where
  "installPyenvVersions env pythonVersions w =
     (let pyenvInstallPromises =
            map (\<lambda>version.
                   let pyVersion = replace version ''python@'' ''''
                   in [Lit ''pyenv install -s '', Val pyVersion, Lit ''''])
              pythonVersions;
          w' = w\<lparr>trace := trace w @ map Shell pyenvInstallPromises\<rparr>;
          rejected = filter (\<lambda>cmd. exitCode (run env cmd) \<noteq> 0) pyenvInstallPromises
      in if rejected = []
         then (Inr (), logger_info ''Installed equivalent pyenv-managed Python versions.'' w')
         else (Inl (map (\<lambda>cmd. ShellError (exitCode (run env cmd))) rejected), w'))"

text \<open>
  \<^verbatim>\<open>
  async function createSymlinks(symlinkCommands) {
    for (const cmd of symlinkCommands) {
      await $`${cmd}`.quiet();
      logger.info(`Executed symlink command: ${cmd}`);
    }
    await $`pyenv rehash`;
  }
  \<close>
\<close>

fun createSymlinks_for :: "environment \<Rightarrow> string list \<Rightarrow> world \<Rightarrow> (js_error + unit) \<times> world"
  where
  "createSymlinks_for env [] w = (Inr (), w)"
| "createSymlinks_for env (cmd # symlinkCommands) w =
     (case shell env [Lit '''', Val cmd, Lit ''''] w of
        (Inl e, w') \<Rightarrow> (Inl e, w')
      | (Inr _, w') \<Rightarrow>
          createSymlinks_for env symlinkCommands
            (logger_info (''Executed symlink command: '' @ cmd) w'))"

definition createSymlinks :: "environment \<Rightarrow> string list \<Rightarrow> world \<Rightarrow> (js_error + unit) \<times> world"
  where
  "createSymlinks env symlinkCommands w =
     (case createSymlinks_for env symlinkCommands w of
        (Inl e, w') \<Rightarrow> (Inl e, w')
      | (Inr _, w') \<Rightarrow>
          (case shell env [Lit ''pyenv rehash''] w' of
             (Inl e, w'') \<Rightarrow> (Inl e, w'')
           | (Inr _, w'') \<Rightarrow> (Inr (), w'')))"

text \<open>
  \<^verbatim>\<open>
  async function reinstallBrewPackages(brewPackages) {
    for (const pkg of brewPackages) {
      await $`brew reinstall ${pkg.name} 2>/dev/null`.quiet();
      logger.info(`Reinstalled Brew package: ${pkg.name}`);
    }
  }
  \<close>
\<close>

fun reinstallBrewPackages :: "environment \<Rightarrow> 'a package_scheme list \<Rightarrow> world
    \<Rightarrow> (js_error + unit) \<times> world" where
  "reinstallBrewPackages env [] w = (Inr (), w)"
| "reinstallBrewPackages env (pkg # brewPackages) w =
     (case shell env [Lit ''brew reinstall '', Val (package.name pkg), Lit '' 2>/dev/null''] w of
        (Inl e, w') \<Rightarrow> (Inl e, w')
      | (Inr _, w') \<Rightarrow>
          reinstallBrewPackages env brewPackages
            (logger_info (''Reinstalled Brew package: '' @ package.name pkg) w'))"

text \<open>
  \<^verbatim>\<open>
  async function updateZshrc(zshrcPath) {
    const zshrcContent = `
  if command -v pyenv 1>/dev/null 2>&1; then
    eval "$(pyenv init --path)"
    eval "$(pyenv init -)"
  fi
  `;
    await appendFile(zshrcPath, zshrcContent);
    logger.info("Updated .zshrc to prioritize pyenv over Brew-managed Python.");
  }
  \<close>
  In the source the lines of the template literal start in the first column: the
  literal is a line break, four lines of text (the two \<^verbatim>\<open>eval\<close> lines indented by two
  spaces) and a line break after \<^verbatim>\<open>fi\<close>.
\<close>

definition zshrcContent :: string where
  \<open>zshrcContent = ''\<newline>if command -v pyenv 1>/dev/null 2>&1; then\<newline>  eval "$(pyenv init --path)"\<newline>  eval "$(pyenv init -)"\<newline>fi\<newline>''\<close>

definition updateZshrc :: "environment \<Rightarrow> string \<Rightarrow> world \<Rightarrow> (js_error + unit) \<times> world" where
  "updateZshrc env zshrcPath w =
     (case appendFile env zshrcPath zshrcContent w of
        (Inl e, w') \<Rightarrow> (Inl e, w')
      | (Inr _, w') \<Rightarrow>
          (Inr (),
           logger_info ''Updated .zshrc to prioritize pyenv over Brew-managed Python.'' w'))"

subsection \<open>Notions used to state the properties\<close>

text \<open>The pattern occurs in \<open>s\<close> at position \<open>i\<close>.\<close>

definition occurs_at :: "string \<Rightarrow> string \<Rightarrow> nat \<Rightarrow> bool" where
  "occurs_at s pat i = startsWith (drop i s) pat"

text \<open>
  A plain path: not empty and, after an optional leading slash, made of segments none
  of which is empty, \<^verbatim>\<open>.\<close> or \<^verbatim>\<open>..\<close>. It has no doubled and no trailing slash, and it
  is not the root directory itself.
\<close>

definition plain_segment :: "string \<Rightarrow> bool" where
  "plain_segment seg = (seg \<noteq> [] \<and> seg \<noteq> ''.'' \<and> seg \<noteq> ''..'')"

definition plain_path :: "string \<Rightarrow> bool" where
  "plain_path path =
     (path \<noteq> [] \<and>
      list_all plain_segment
        (split_str (if hd path = CHR ''/'' then tl path else path) CHR ''/''))"

text \<open>
  The \<^verbatim>\<open>formulae\<close> array of the \<^verbatim>\<open>info\<close> result for a name, when the command succeeds
  and prints an object that has one.
\<close>

definition info_formulae :: "environment \<Rightarrow> string \<Rightarrow> js list option" where
  "info_formulae env formula =
     (let p = run env [Lit ''brew info '', Val formula, Lit '' --json=v2 2>/dev/null'']
      in if exitCode p \<noteq> 0 then None
         else (case JSON_parse env (stdout p) of
                 Some (JObject props) \<Rightarrow>
                   (case map_of props ''formulae'' of Some (JArray fs) \<Rightarrow> Some fs | _ \<Rightarrow> None)
               | _ \<Rightarrow> None))"

text \<open>\<^verbatim>\<open>xs[0]\<close> of an array.\<close>

definition first_or_undefined :: "js list \<Rightarrow> js" where
  "first_or_undefined xs = (case xs of [] \<Rightarrow> JUndefined | x # _ \<Rightarrow> x)"

text \<open>
  A Formula record of the data model: an object with a name, a stable version string
  and a list of dependency identifiers.
\<close>

fun is_JString :: "js \<Rightarrow> bool" where
  "is_JString (JString s) = True"
| "is_JString v = False"

fun is_Formula :: "js \<Rightarrow> bool" where
  "is_Formula (JObject props) =
     ((case map_of props ''name'' of Some v \<Rightarrow> is_JString v | None \<Rightarrow> False)
      \<and> (case map_of props ''versions'' of
            Some (JObject vs) \<Rightarrow>
              (case map_of vs ''stable'' of Some v \<Rightarrow> is_JString v | None \<Rightarrow> False)
          | _ \<Rightarrow> False)
      \<and> (case map_of props ''dependencies'' of
            Some (JArray deps) \<Rightarrow> list_all is_JString deps
          | _ \<Rightarrow> False))"
| "is_Formula v = False"

subsection \<open>Sample environments\<close>

text \<open>The world before anything has happened.\<close>

definition initial_world :: world where
  "initial_world = \<lparr>trace = [], files = (\<lambda>path. None)\<rparr>"

text \<open>
  \<open>sample_parse\<close> agrees with \<^verbatim>\<open>JSON.parse\<close> on the two texts the sample gateways
  print.
\<close>

definition sample_parse :: "string \<Rightarrow> js option" where
  \<open>sample_parse text =
     (if text = ''{"formulae":[{"name":"formula1"}]}''
      then Some (JObject [(''formulae'', JArray [JObject [(''name'', JString ''formula1'')]])])
      else if text = ''{"formulae":[]}''
      then Some (JObject [(''formulae'', JArray [])])
      else None)\<close>

text \<open>Every command succeeds and prints nothing; every path can be appended to.\<close>

definition all_succeed :: environment where
  "all_succeed =
     \<lparr>run = (\<lambda>cmd. \<lparr>exitCode = 0, stdout = []\<rparr>),
      JSON_parse = sample_parse,
      writable = (\<lambda>path. True)\<rparr>"

text \<open>
  Three formulae are installed, and \<^verbatim>\<open>brew info\<close> prints the same record for each:
  the gateway of the repository's test of \<open>fetchBrewFormulae\<close>.
\<close>

definition three_formulae :: environment where
  \<open>three_formulae =
     \<lparr>run = (\<lambda>cmd. if cmd = [Lit ''brew list --formula'']
                   then \<lparr>exitCode = 0, stdout = ''formula1\<newline>formula2\<newline>formula3''\<rparr>
                   else \<lparr>exitCode = 0, stdout = ''{"formulae":[{"name":"formula1"}]}''\<rparr>),
      JSON_parse = sample_parse,
      writable = (\<lambda>path. True)\<rparr>\<close>

text \<open>The same, but \<^verbatim>\<open>brew info formula2\<close> prints an empty \<^verbatim>\<open>formulae\<close> array.\<close>

definition no_match_for_formula2 :: environment where
  \<open>no_match_for_formula2 =
     \<lparr>run = (\<lambda>cmd. if cmd = [Lit ''brew list --formula'']
                   then \<lparr>exitCode = 0, stdout = ''formula1\<newline>formula2\<newline>formula3''\<rparr>
                   else if cmd = [Lit ''brew info '', Val ''formula2'',
                                  Lit '' --json=v2 2>/dev/null'']
                   then \<lparr>exitCode = 0, stdout = ''{"formulae":[]}''\<rparr>
                   else \<lparr>exitCode = 0, stdout = ''{"formulae":[{"name":"formula1"}]}''\<rparr>),
      JSON_parse = sample_parse,
      writable = (\<lambda>path. True)\<rparr>\<close>

text \<open>
  Bun's shell passes an interpolated string to the command as one word, escaped. A
  template that is nothing but one interpolated value therefore names the program to
  run by the whole value, and no program is named by a command line with spaces in
  it: the command is not found, and it exits with a status other than zero (1 here).
  Every other command succeeds.
\<close>

definition whole_line_as_one_word :: environment where
  "whole_line_as_one_word =
     \<lparr>run = (\<lambda>cmd. case cmd of
                     [Lit [], Val word, Lit []] \<Rightarrow>
                       (if CHR '' '' \<in> set word then \<lparr>exitCode = 1, stdout = []\<rparr>
                        else \<lparr>exitCode = 0, stdout = []\<rparr>)
                   | _ \<Rightarrow> \<lparr>exitCode = 0, stdout = []\<rparr>),
      JSON_parse = sample_parse,
      writable = (\<lambda>path. True)\<rparr>"

text \<open>\<^verbatim>\<open>brew reinstall certbot\<close> exits with status 1; every other command succeeds.\<close>

definition certbot_reinstall_fails :: environment where
  "certbot_reinstall_fails =
     \<lparr>run = (\<lambda>cmd. if cmd = [Lit ''brew reinstall '', Val ''certbot'', Lit '' 2>/dev/null'']
                   then \<lparr>exitCode = 1, stdout = []\<rparr>
                   else \<lparr>exitCode = 0, stdout = []\<rparr>),
      JSON_parse = sample_parse,
      writable = (\<lambda>path. True)\<rparr>"

section \<open>Properties of the library functions\<close>

lemma startsWith_prefix: "startsWith s p = prefix p s"
  by (induction s p rule: startsWith.induct) auto

lemma some_iff: "some f xs = (\<exists>x\<in>set xs. f x)"
  by (induction xs) auto

lemma set_foldl_Set_add: "set (foldl Set_add acc xs) = set acc \<union> set xs"
  by (induction xs arbitrary: acc) (auto simp: Set_add_def)

lemma distinct_foldl_Set_add: "distinct acc \<Longrightarrow> distinct (foldl Set_add acc xs)"
  by (induction xs arbitrary: acc) (auto simp: Set_add_def)

lemma set_new_Set: "set (new_Set xs) = set xs"
  by (simp add: new_Set_def set_foldl_Set_add)

lemma distinct_new_Set: "distinct (new_Set xs)"
  by (simp add: new_Set_def distinct_foldl_Set_add)

lemma new_Set_snoc: "new_Set (xs @ [x]) = Set_add (new_Set xs) x"
  by (simp add: new_Set_def)

text \<open>
  The members of the set, in insertion order, are the elements of the array at the
  positions where an element occurs for the first time.
\<close>

lemma new_Set_first_positions:
  "new_Set xs = nths xs {i. i < length xs \<and> xs ! i \<notin> set (take i xs)}"
proof (induction xs rule: rev_induct)
  case Nil
  show ?case by (simp add: new_Set_def)
next
  case (snoc x xs)
  have old: "nths xs {i. i < length (xs @ [x]) \<and> (xs @ [x]) ! i \<notin> set (take i (xs @ [x]))}
      = nths xs {i. i < length xs \<and> xs ! i \<notin> set (take i xs)}"
    unfolding nths_def
    by (rule arg_cong[where f="map fst"], rule filter_cong) (auto simp: nth_append set_zip)
  have new: "nths [x] {j. j + length xs \<in>
        {i. i < length (xs @ [x]) \<and> (xs @ [x]) ! i \<notin> set (take i (xs @ [x]))}}
      = (if x \<in> set xs then [] else [x])"
    by (auto simp: nths_Cons)
  show ?case
    unfolding new_Set_snoc nths_append old new snoc.IH[symmetric]
    by (simp add: Set_add_def set_new_Set)
qed

lemma new_Set_remdups: "new_Set xs = rev (remdups (rev xs))"
proof (induction xs rule: rev_induct)
  case Nil
  show ?case by (simp add: new_Set_def)
next
  case (snoc x xs)
  then show ?case
    unfolding new_Set_snoc by (auto simp add: Set_add_def)
qed

section \<open>Binary64 arithmetic\<close>

text \<open>The exponent function is right.\<close>

lemma ilog2_bounds:
  assumes "0 < x"
  shows "2 powi ilog2 x \<le> x \<and> x < 2 powi (ilog2 x + 1)"
proof (cases "1 \<le> x")
  case True
  define m where "m = \<lfloor>x\<rfloor>"
  define b where "b = bitlen m"
  from True have m: "0 < m" by (simp add: m_def)
  from bitlen_bounds[OF m] have lo: "2 ^ nat (b - 1) \<le> m" and hi: "m < 2 ^ nat b"
    by (simp_all add: b_def)
  from m have b: "1 \<le> b" unfolding b_def by (simp add: bitlen_ge_iff_power)
  have "(2 :: real) ^ nat (b - 1) = of_int (2 ^ nat (b - 1))" by simp
  also have "\<dots> \<le> of_int m" using lo by (simp only: of_int_le_iff)
  also have "\<dots> \<le> x" by (simp add: m_def)
  finally have lower: "(2 :: real) ^ nat (b - 1) \<le> x" .
  have "x < of_int m + 1" by (simp add: m_def)
  also have "\<dots> = of_int (m + 1)" by simp
  also have "\<dots> \<le> of_int (2 ^ nat b)" using hi by (simp only: of_int_le_iff zle_add1_eq_le)
  finally have upper: "x < 2 ^ nat b" by simp
  from True b lower upper show ?thesis
    by (simp add: ilog2_def m_def[symmetric] b_def[symmetric] power_int_def)
next
  case False
  define y where "y = 1 / x"
  define n where "n = \<lceil>y\<rceil> - 1"
  define b where "b = bitlen n"
  from False assms have y: "1 < y" by (simp add: y_def)
  then have n: "0 < n" by (simp add: n_def less_ceiling_iff)
  from bitlen_bounds[OF n] have lo: "2 ^ nat (b - 1) \<le> n" and hi: "n < 2 ^ nat b"
    by (simp_all add: b_def)
  from n have b: "1 \<le> b" unfolding b_def by (simp add: bitlen_ge_iff_power)
  have "(2 :: real) ^ nat (b - 1) = of_int (2 ^ nat (b - 1))" by simp
  also have "\<dots> \<le> of_int n" using lo by (simp only: of_int_le_iff)
  also have "\<dots> < y" by (simp add: n_def) linarith
  finally have above: "(2 :: real) ^ nat (b - 1) < y" .
  have "y \<le> of_int (n + 1)" by (simp add: n_def)
  also have "\<dots> \<le> of_int (2 ^ nat b)" using hi by (simp only: of_int_le_iff zle_add1_eq_le)
  finally have below: "y \<le> 2 ^ nat b" by simp
  have x: "x = 1 / y" using assms by (simp add: y_def)
  from below y have "1 / 2 ^ nat b \<le> x"
    unfolding x by (intro divide_left_mono) simp_all
  moreover from above y have "x < 1 / 2 ^ nat (b - 1)"
    unfolding x by (intro divide_strict_left_mono) (simp_all add: mult_pos_pos)
  moreover have "nat (b - 1) = nat b - 1" by simp
  ultimately show ?thesis
    using False b
    by (simp add: ilog2_def y_def[symmetric] n_def[symmetric] b_def[symmetric] power_int_def
        inverse_eq_divide power_one_over nat_diff_distrib)
qed

text \<open>Rounding to the nearest integer is exact on integers and off by at most a half.\<close>

lemma round_half_even_of_int: "round_half_even (of_int z) = z"
  by (simp add: round_half_even_def Let_def)

lemma round_half_even_error: "\<bar>of_int (round_half_even y) - y\<bar> \<le> 1 / 2"
proof -
  have "of_int \<lfloor>y\<rfloor> \<le> y" and "y < of_int \<lfloor>y\<rfloor> + 1" by linarith+
  then show ?thesis
    by (auto simp: round_half_even_def Let_def)
qed

lemma ilog2_less_power:
  assumes "0 < x" and "x < 2 ^ k" and "0 < k"
  shows "ilog2 x \<le> int k - 1"
proof (cases "1 \<le> x")
  case True
  from assms(2) have "\<lfloor>x\<rfloor> < 2 ^ k"
    by (simp add: floor_less_iff)
  then have "bitlen \<lfloor>x\<rfloor> \<le> int k"
    by (simp add: bitlen_le_iff_power)
  with True show ?thesis by (simp add: ilog2_def)
next
  case False
  have "0 \<le> bitlen (\<lceil>1 / x\<rceil> - 1)" by (rule bitlen_nonneg)
  with False assms(3) show ?thesis by (simp add: ilog2_def)
qed

lemma binary64_int_exact:
  assumes "\<bar>d\<bar> < 2 ^ 53"
  shows "binary64 (of_int d) = Finite (of_int d)"
proof (cases "d = 0")
  case True
  then show ?thesis by (simp add: binary64_def)
next
  case False
  let ?x = "of_int d :: real"
  define e where "e = max (ilog2 \<bar>?x\<bar> - 52) (- 1074)"
  have pos: "0 < \<bar>?x\<bar>" using False by simp
  have "\<bar>?x\<bar> < 2 ^ 53"
  proof -
    have "\<bar>?x\<bar> = of_int \<bar>d\<bar>" by simp
    also have "\<dots> < of_int (2 ^ 53)" using assms by (simp only: of_int_less_iff)
    finally show ?thesis by simp
  qed
  from ilog2_less_power[OF pos this] have e_le: "e \<le> 0" by (simp add: e_def)
  have small: "\<not> (2 :: real) ^ 1024 \<le> \<bar>?x\<bar>"
  proof -
    have "(2 :: real) ^ 53 \<le> 2 ^ 1024" by (rule power_increasing) simp_all
    with \<open>\<bar>?x\<bar> < 2 ^ 53\<close> show ?thesis by linarith
  qed
  have v: "(if 0 \<le> e then of_int (round_half_even (?x / 2 ^ nat e)) * 2 ^ nat e
            else of_int (round_half_even (?x * 2 ^ nat (- e))) / 2 ^ nat (- e)) = ?x"
  proof (cases "0 \<le> e")
    case True
    with e_le have "e = 0" by simp
    then show ?thesis by (simp add: round_half_even_of_int)
  next
    case False
    have "?x * 2 ^ nat (- e) = of_int (d * 2 ^ nat (- e))" by simp
    then have "round_half_even (?x * 2 ^ nat (- e)) = d * 2 ^ nat (- e)"
      by (simp only: round_half_even_of_int)
    with False show ?thesis by simp
  qed
  show ?thesis
    unfolding binary64_def Let_def e_def[symmetric] v
    using False small by simp
qed

lemma binary64_quotient:
  assumes "\<bar>d\<bar> < 2 ^ 53"
  shows "\<exists>v. binary64 (of_int d / 86400000) = Finite v
           \<and> \<bar>v - of_int d / 86400000\<bar> \<le> 1 / 2 ^ 27
           \<and> (86400000 dvd d \<longrightarrow> v = of_int d / 86400000)"
proof (cases "d = 0")
  case True
  then show ?thesis by (simp add: binary64_def)
next
  case False
  let ?x = "of_int d / 86400000 :: real"
  define e where "e = max (ilog2 \<bar>?x\<bar> - 52) (- 1074)"
  define k where "k = nat (- e)"
  have pos: "0 < \<bar>?x\<bar>" using False by simp
  have absd: "(of_int \<bar>d\<bar> :: real) < 2 ^ 53"
  proof -
    have "(of_int \<bar>d\<bar> :: real) < of_int (2 ^ 53)" using assms by (simp only: of_int_less_iff)
    then show ?thesis by simp
  qed
  have bound: "\<bar>?x\<bar> < 2 ^ 27"
  proof -
    have "\<bar>?x\<bar> = of_int \<bar>d\<bar> / 86400000" by simp
    also have "\<dots> < 2 ^ 53 / 86400000" using absd by (simp add: divide_strict_right_mono)
    also have "\<dots> < 2 ^ 27" by simp
    finally show ?thesis .
  qed
  from ilog2_less_power[OF pos bound] have e_le: "e \<le> - 26" by (simp add: e_def)
  then have neg: "\<not> 0 \<le> e" and k: "26 \<le> k" by (simp_all add: k_def)
  define v where "v = (of_int (round_half_even (?x * 2 ^ k)) :: real) / 2 ^ k"
  have pow: "(2 :: real) ^ 26 \<le> 2 ^ k" using k by (intro power_increasing) simp_all
  have pk: "(0 :: real) < 2 ^ k" by simp
  have err: "\<bar>v - ?x\<bar> \<le> 1 / 2 ^ 27"
  proof -
    have "v - ?x = (of_int (round_half_even (?x * 2 ^ k)) - ?x * 2 ^ k) / 2 ^ k"
      by (simp add: v_def field_simps)
    then have "\<bar>v - ?x\<bar> = \<bar>of_int (round_half_even (?x * 2 ^ k)) - ?x * 2 ^ k\<bar> / 2 ^ k"
      by (simp add: abs_divide)
    also have "\<dots> \<le> (1 / 2) / 2 ^ k"
      by (rule divide_right_mono[OF round_half_even_error]) simp
    also have "\<dots> \<le> (1 / 2) / 2 ^ 26"
      using pow by (simp add: frac_le)
    also have "\<dots> = 1 / 2 ^ 27" by simp
    finally show ?thesis .
  qed
  have exact: "v = ?x" if "86400000 dvd d"
  proof -
    from that obtain n where n: "d = 86400000 * n" by (auto simp: dvd_def)
    then have x: "?x = of_int n" by simp
    have "?x * 2 ^ k = of_int (n * 2 ^ k)" by (simp add: x)
    then have "round_half_even (?x * 2 ^ k) = n * 2 ^ k"
      by (simp only: round_half_even_of_int)
    then show ?thesis by (simp add: v_def x)
  qed
  have small: "\<not> (2 :: real) ^ 1024 \<le> \<bar>v\<bar>"
  proof -
    have "\<bar>v\<bar> \<le> \<bar>?x\<bar> + \<bar>v - ?x\<bar>" by linarith
    also have "\<dots> < 2 ^ 27 + 1 / 2 ^ 27" using bound err by linarith
    also have "\<dots> < 2 ^ 28" by simp
    also have "\<dots> \<le> 2 ^ 1024" by (rule power_increasing) simp_all
    finally show ?thesis by simp
  qed
  have "binary64 ?x = Finite v"
    unfolding binary64_def Let_def e_def[symmetric]
    using False neg small by (simp add: v_def k_def)
  with err exact show ?thesis by blast
qed

lemma getDaysOld_exact:
  assumes "\<bar>currentTime - lastModified\<bar> < 2 ^ 53"
  shows "getDaysOld lastModified currentTime
           = Finite (of_int ((currentTime - lastModified) div 86400000))"
proof -
  define d where "d = currentTime - lastModified"
  define n where "n = d div 86400000"
  define r where "r = d mod 86400000"
  have d: "d = 86400000 * n + r" and r: "0 \<le> r" "r < 86400000"
    by (simp_all add: n_def r_def)
  from assms have bd: "\<bar>d\<bar> < 2 ^ 53" by (simp add: d_def)
  have sub: "binary64 (of_int currentTime - of_int lastModified) = Finite (of_int d)"
    using binary64_int_exact[OF bd] by (simp add: d_def)
  from binary64_quotient[OF bd] obtain v where
    v: "binary64 (of_int d / 86400000) = Finite v" and
    err: "\<bar>v - of_int d / 86400000\<bar> \<le> 1 / 2 ^ 27" and
    exact: "86400000 dvd d \<longrightarrow> v = of_int d / 86400000"
    by blast
  have x: "(of_int d :: real) / 86400000 = of_int n + of_int r / 86400000"
    by (simp add: d)
  have "\<lfloor>v\<rfloor> = n"
  proof (cases "r = 0")
    case True
    then have "86400000 dvd d" by (simp add: d)
    with exact x True have "v = of_int n" by simp
    then show ?thesis by simp
  next
    case False
    with r have "1 \<le> r" and "r \<le> 86399999" by simp_all
    then have "(1 :: real) \<le> of_int r" and "(of_int r :: real) \<le> 86399999"
      by (simp_all only: of_int_le_iff[symmetric, where 'a=real] of_int_1 of_int_numeral)
    then have "(1 :: real) / 86400000 \<le> of_int r / 86400000"
      and "(of_int r :: real) / 86400000 \<le> 86399999 / 86400000"
      by (simp_all add: divide_right_mono)
    moreover define q where "q = (of_int r :: real) / 86400000"
    ultimately have lo: "1 / 86400000 \<le> q" and hi: "q \<le> 86399999 / 86400000"
      by simp_all
    have "(1 :: real) / 2 ^ 27 = 1 / 134217728" by simp
    with err x have err': "\<bar>v - (of_int n + q)\<bar> \<le> 1 / 134217728"
      by (simp only: q_def)
    have "of_int n < v" and "v < of_int n + 1"
      using err' lo hi by linarith+
    then show ?thesis by (simp add: floor_unique)
  qed
  then show ?thesis
    unfolding getDaysOld_def n_def d_def[symmetric] sub
    using v by simp
qed

lemma is_double_safe: "\<bar>n\<bar> < 2 ^ 53 \<Longrightarrow> is_double n"
  by (simp add: is_double_def binary64_int_exact)

section \<open>Time and cache utility: age in days and validity\<close>

text \<open>
  Claim C6, as amended. For all integer timestamps \<open>lastModified\<close> and \<open>now\<close> that are
  numbers and whose difference is below 2^53 in magnitude, and every integer
  \<open>expiryDays\<close>: \<open>getDaysOld lastModified now\<close> is the floor of
  \<open>(now - lastModified) / 86400000\<close>, with no bound checked, so that a timestamp in the
  future gives a negative age; \<open>isCacheValid\<close> holds exactly when that age is strictly
  less than \<open>expiryDays\<close>; a cache that is exactly \<open>expiryDays\<close> days old is therefore
  invalid, and in particular one that is seven days old under an expiry of seven days.
  (Beyond that distance the difference is rounded to a number before it is divided,
  and the age can be one day more than the floor of the exact quotient.)
\<close>

theorem getDaysOld_isCacheValid_spec:
  "(is_double lastModified \<and> is_double now \<and> \<bar>now - lastModified\<bar> < 2 ^ 53 \<longrightarrow>
      getDaysOld lastModified now
        = Finite (of_int \<lfloor>real_of_int (now - lastModified) / 86400000\<rfloor>)
      \<and> getDaysOld lastModified now = Finite (of_int ((now - lastModified) div 86400000))
      \<and> (now < lastModified \<longrightarrow> (now - lastModified) div 86400000 < 0)
      \<and> isCacheValid now lastModified expiryDays
          = ((now - lastModified) div 86400000 < expiryDays))
   \<and> (is_double now \<and> is_double (now - expiryDays * 86400000)
        \<and> \<bar>expiryDays * 86400000\<bar> < 2 ^ 53 \<longrightarrow>
      getDaysOld (now - expiryDays * 86400000) now = Finite (of_int expiryDays)
      \<and> \<not> isCacheValid now (now - expiryDays * 86400000) expiryDays)
   \<and> (is_double now \<and> is_double (now - 7 * 86400000) \<longrightarrow>
      \<not> isCacheValid now (now - 7 * 86400000) 7)"
proof -
  have floor_div: "\<lfloor>real_of_int d / 86400000\<rfloor> = d div 86400000" for d
    using floor_divide_of_int_eq[of d 86400000, where 'a=real] by simp
  have general: "getDaysOld lastModified now
        = Finite (of_int \<lfloor>real_of_int (now - lastModified) / 86400000\<rfloor>)
      \<and> getDaysOld lastModified now = Finite (of_int ((now - lastModified) div 86400000))
      \<and> (now < lastModified \<longrightarrow> (now - lastModified) div 86400000 < 0)
      \<and> isCacheValid now lastModified expiryDays
          = ((now - lastModified) div 86400000 < expiryDays)"
    if "\<bar>now - lastModified\<bar> < 2 ^ 53"
    unfolding floor_div isCacheValid_def getDaysOld_exact[OF that]
    by (simp add: div_neg_pos_less0)
  have exact: "getDaysOld (now - k * 86400000) now = Finite (of_int k)
      \<and> \<not> isCacheValid now (now - k * 86400000) k"
    if "\<bar>k * 86400000\<bar> < 2 ^ 53" for k
  proof -
    from that have "\<bar>now - (now - k * 86400000)\<bar> < 2 ^ 53" by simp
    from getDaysOld_exact[OF this] show ?thesis
      by (simp add: isCacheValid_def)
  qed
  have seven: "\<not> isCacheValid now (now - 7 * 86400000) 7"
    using exact[of 7] by simp
  from general exact[of expiryDays] seven show ?thesis by blast
qed

theorem getDaysOld_isCacheValid_witness:
  "is_double 1699395200000 \<and> is_double 1700000000000
   \<and> \<bar>1700000000000 - 1699395200000\<bar> < (2 :: int) ^ 53
   \<and> getDaysOld 1699395200000 1700000000000 = Finite 7
   \<and> \<not> isCacheValid 1700000000000 1699395200000 7
   \<and> isCacheValid 1700000000000 1699395200000 8
   \<and> is_double 86400001 \<and> is_double 0 \<and> getDaysOld 86400001 0 = Finite (- 2)"
proof -
  have doubles: "is_double 1699395200000" "is_double 1700000000000" "is_double 86400001"
    "is_double 0"
    by (simp_all add: is_double_safe)
  have near: "\<bar>1700000000000 - 1699395200000\<bar> < (2 :: int) ^ 53"
    "\<bar>0 - 86400001\<bar> < (2 :: int) ^ 53" by simp_all
  note week = getDaysOld_isCacheValid_spec[of 1699395200000 1700000000000, THEN conjunct1,
      THEN mp, OF conjI[OF doubles(1) conjI[OF doubles(2) near(1)]]]
  note future = getDaysOld_isCacheValid_spec[of 86400001 0, THEN conjunct1,
      THEN mp, OF conjI[OF doubles(3) conjI[OF doubles(4) near(2)]]]
  from week[of 7] have a: "getDaysOld 1699395200000 1700000000000 = Finite 7"
    and b: "\<not> isCacheValid 1700000000000 1699395200000 7" by simp_all
  from week[of 8] have c: "isCacheValid 1700000000000 1699395200000 8" by simp
  from future[of 0] have d: "getDaysOld 86400001 0 = Finite (- 2)" by simp
  from doubles near(1) a b c d show ?thesis by blast
qed

text \<open>
  The claim as it was stated, for all integer timestamps, fails: between the earliest
  time value of a date and one millisecond before the latest, the difference
  17279999999999999 is not a number; it is rounded to 17280000000000000, and the age
  is 200000000 days, one more than the floor of the exact quotient.
\<close>

theorem getDaysOld_counterexample:
  "is_double (- 8640000000000000) \<and> is_double 8639999999999999
   \<and> getDaysOld (- 8640000000000000) 8639999999999999 = Finite 200000000
   \<and> \<lfloor>real_of_int (8639999999999999 - (- 8640000000000000)) / 86400000\<rfloor> = 199999999
   \<and> getDaysOld (- 8640000000000000) 8639999999999999
       \<noteq> Finite (of_int \<lfloor>real_of_int (8639999999999999 - (- 8640000000000000))
                                / 86400000\<rfloor>)"
proof -
  have "is_double (- 8640000000000000)" "is_double 8639999999999999"
    by (simp_all add: is_double_safe)
  moreover have "getDaysOld (- 8640000000000000) 8639999999999999 = Finite 200000000"
    by (simp add: getDaysOld_def binary64_def Let_def ilog2_def compute_bitlen
        round_half_even_def)
  moreover have "\<lfloor>real_of_int (8639999999999999 - (- 8640000000000000)) / 86400000\<rfloor>
      = 199999999"
    by simp
  ultimately show ?thesis by simp
qed

section \<open>Formula classifier\<close>

text \<open>
  Claim C3. For every list of formulae, \<open>identifyBrewPythonPackages\<close> returns exactly the
  formulae whose dependency list has at least one entry that starts with the literal
  prefix \<open>python@\<close>, each projected to its name, its stable version string and its full
  dependency list, in the order of the input; the empty input yields the empty output.
\<close>

theorem identifyBrewPythonPackages_spec:
  "identifyBrewPythonPackages formulae =
     map (\<lambda>f. \<lparr>package.name = formula.name f,
               version = stable (formula.versions f),
               package.dependencies = formula.dependencies f\<rparr>)
       [f \<leftarrow> formulae. \<exists>dep \<in> set (formula.dependencies f). prefix ''python@'' dep]
   \<and> subseq (map package.name (identifyBrewPythonPackages formulae)) (map formula.name formulae)
   \<and> identifyBrewPythonPackages ([] :: 'a formula_scheme list) = []"
proof -
  have "subseq (map formula.name (filter P formulae)) (map formula.name formulae)" for P
    by (induction formulae) auto
  then show ?thesis
    by (simp add: identifyBrewPythonPackages_def some_iff startsWith_prefix comp_def)
qed

theorem identifyBrewPythonPackages_witness:
  "identifyBrewPythonPackages
     [\<lparr>formula.name = ''certbot'', versions = \<lparr>stable = ''2.0.0''\<rparr>,
        dependencies = [''openssl'', ''python@3.9'']\<rparr>,
      \<lparr>formula.name = ''ffmpeg'', versions = \<lparr>stable = ''4.4''\<rparr>,
        dependencies = [''libass'', ''libvorbis'']\<rparr>,
      \<lparr>formula.name = ''numpy'', versions = \<lparr>stable = ''1.21.0''\<rparr>,
        dependencies = [''python@3.9'']\<rparr>]
   = [\<lparr>package.name = ''certbot'', version = ''2.0.0'',
        dependencies = [''openssl'', ''python@3.9'']\<rparr>,
      \<lparr>package.name = ''numpy'', version = ''1.21.0'', dependencies = [''python@3.9'']\<rparr>]"
  by (simp add: identifyBrewPythonPackages_spec[THEN conjunct1])

section \<open>Version extractor\<close>

text \<open>
  Claim C4. For every list of classified packages, \<open>extractPythonVersions\<close> is the
  concatenation of all dependency lists, filtered to the entries with the prefix
  \<open>python@\<close>, with duplicates removed so that every distinct entry appears exactly once,
  at the position of its first occurrence: the result keeps exactly the positions of the
  concatenation whose entry does not occur earlier, so the order is the order of first
  occurrence and not a sorted one. It is empty exactly when there is no such dependency.
\<close>

theorem extractPythonVersions_spec:
  "(let flat = concat (map (\<lambda>pkg. filter (prefix ''python@'') (package.dependencies pkg))
                         packages)
    in extractPythonVersions packages
         = nths flat {i. i < length flat \<and> flat ! i \<notin> set (take i flat)}
       \<and> extractPythonVersions packages = rev (remdups (rev flat))
       \<and> distinct (extractPythonVersions packages)
       \<and> set (extractPythonVersions packages) = set flat
       \<and> (extractPythonVersions packages = []) = (flat = []))"
proof -
  define flat where
    "flat = concat (map (\<lambda>pkg. filter (prefix ''python@'') (package.dependencies pkg)) packages)"
  have eq: "extractPythonVersions packages = new_Set flat"
    by (simp add: extractPythonVersions_def flatMap_def flat_def startsWith_prefix)
  have empty: "(new_Set flat = []) = (flat = [])"
    using set_new_Set[of flat] by (metis set_empty)
  have "new_Set flat = nths flat {i. i < length flat \<and> flat ! i \<notin> set (take i flat)}
       \<and> new_Set flat = rev (remdups (rev flat))
       \<and> distinct (new_Set flat)
       \<and> set (new_Set flat) = set flat
       \<and> (new_Set flat = []) = (flat = [])"
    using new_Set_first_positions[of flat] new_Set_remdups[of flat] empty
      distinct_new_Set[of flat] set_new_Set[of flat] by blast
  then show ?thesis
    unfolding Let_def flat_def[symmetric] eq .
qed

theorem extractPythonVersions_witness:
  "extractPythonVersions
     [\<lparr>package.name = ''certbot'', version = ''2.0.0'',
        dependencies = [''openssl'', ''python@3.9'']\<rparr>,
      \<lparr>package.name = ''numpy'', version = ''1.21.0'',
        dependencies = [''python@3.8'', ''python@3.9'']\<rparr>,
      \<lparr>package.name = ''scipy'', version = ''1.7.0'', dependencies = [''python@3.7'']\<rparr>]
   = [''python@3.9'', ''python@3.8'', ''python@3.7'']"
  by (simp add: extractPythonVersions_spec[unfolded Let_def, THEN conjunct2, THEN conjunct1])

section \<open>Replacing the first occurrence\<close>

lemma replace_startsWith:
  "startsWith s pat \<Longrightarrow> replace s pat rep = rep @ drop (length pat) s"
  by (cases s) (auto simp: startsWith_prefix)

lemma replace_first_occurrence:
  "occurs_at s pat i \<Longrightarrow> (\<forall>j<i. \<not> occurs_at s pat j) \<Longrightarrow>
   replace s pat rep = take i s @ rep @ drop (i + length pat) s"
proof (induction s arbitrary: i)
  case Nil
  then show ?case by (cases pat) (auto simp: occurs_at_def)
next
  case (Cons c cs)
  show ?case
  proof (cases "startsWith (c # cs) pat")
    case True
    then have "occurs_at (c # cs) pat 0" by (simp add: occurs_at_def)
    with Cons.prems(2) have "i = 0" by (cases i) auto
    with True show ?thesis by simp
  next
    case False
    with Cons.prems(1) obtain k where k: "i = Suc k"
      by (cases i) (auto simp: occurs_at_def)
    from Cons.prems(1) k have occ: "occurs_at cs pat k" by (simp add: occurs_at_def)
    have "\<forall>j<k. \<not> occurs_at cs pat j"
    proof (intro allI impI)
      fix j assume "j < k"
      then have "\<not> occurs_at (c # cs) pat (Suc j)" using Cons.prems(2) k by simp
      then show "\<not> occurs_at cs pat j" by (simp add: occurs_at_def)
    qed
    from Cons.IH[OF occ this] False k show ?thesis by simp
  qed
qed

lemma replace_no_occurrence:
  "(\<forall>j. \<not> occurs_at s pat j) \<Longrightarrow> replace s pat rep = s"
proof (induction s)
  case Nil
  from Nil[rule_format, of 0] show ?case by (cases pat) (auto simp: occurs_at_def)
next
  case (Cons c cs)
  from Cons.prems[rule_format, of 0] have no: "\<not> startsWith (c # cs) pat"
    by (simp add: occurs_at_def)
  have "\<forall>j. \<not> occurs_at cs pat j"
  proof
    fix j
    from Cons.prems[rule_format, of "Suc j"] show "\<not> occurs_at cs pat j"
      by (simp add: occurs_at_def)
  qed
  from Cons.IH[OF this] no show ?case by simp
qed

section \<open>Splitting and joining\<close>

lemma split_from_not_Nil: "split_from piece sep s \<noteq> []"
  by (induction s arbitrary: piece) auto

lemma join_str_Cons: "xs \<noteq> [] \<Longrightarrow> join_str (x # xs) sep = x @ sep @ join_str xs sep"
  by (cases xs) auto

lemma join_split_from: "join_str (split_from piece sep s) [sep] = piece @ s"
  by (induction s arbitrary: piece) (auto simp: join_str_Cons split_from_not_Nil)

lemma join_split_str: "join_str (split_str s sep) [sep] = s"
  by (simp add: split_str_def join_split_from)

lemma split_from_no_sep: "sep \<notin> set s \<Longrightarrow> split_from piece sep s = [piece @ s]"
  by (induction s arbitrary: piece) auto

lemma split_from_append:
  "split_from piece sep (a @ sep # r) = split_from piece sep a @ split_from [] sep r"
  by (induction a arbitrary: piece) auto

lemma split_from_pieces:
  "sep \<notin> set piece \<Longrightarrow> \<forall>l\<in>set (split_from piece sep s). sep \<notin> set l"
proof (induction s arbitrary: piece)
  case Nil
  then show ?case by simp
next
  case (Cons c s)
  show ?case
  proof (cases "c = sep")
    case True
    with Cons.prems Cons.IH[of "[]"] show ?thesis by simp
  next
    case False
    with Cons.prems Cons.IH[of "piece @ [c]"] show ?thesis by simp
  qed
qed

lemma split_str_pieces: "\<forall>l\<in>set (split_str s sep). sep \<notin> set l"
  unfolding split_str_def by (rule split_from_pieces) simp

lemma last_split_from_trailing:
  "s \<noteq> [] \<Longrightarrow> last s = sep \<Longrightarrow> last (split_from piece sep s) = []"
proof (induction s arbitrary: piece)
  case Nil
  then show ?case by simp
next
  case (Cons c cs)
  show ?case
  proof (cases "cs = []")
    case True
    with Cons.prems show ?thesis by simp
  next
    case False
    with Cons.prems have "last cs = sep" by simp
    from Cons.IH[OF False this] show ?thesis
      by (simp add: split_from_not_Nil)
  qed
qed

section \<open>Normalising a plain path changes nothing\<close>

lemma foldl_plain_segments:
  "list_all plain_segment segs \<Longrightarrow> foldl (normalize_segment allow) res segs = res @ segs"
  by (induction segs arbitrary: res) (auto simp: normalize_segment_def plain_segment_def)

lemma normalizeString_plain:
  "list_all plain_segment (split_str path CHR ''/'') \<Longrightarrow> normalizeString path allow = path"
  by (simp add: normalizeString_def foldl_plain_segments join_split_str[of path "CHR ''/''", simplified])

lemma normalizeString_leading_slash:
  "normalizeString (CHR ''/'' # path) allow = normalizeString path allow"
  by (simp add: normalizeString_def split_str_def normalize_segment_def)

lemma split_str_plain_not_trailing:
  "list_all plain_segment (split_str s CHR ''/'') \<Longrightarrow> s \<noteq> [] \<and> last s \<noteq> CHR ''/''"
proof (cases "s = []")
  case True
  assume "list_all plain_segment (split_str s CHR ''/'')"
  with True show ?thesis by (simp add: split_str_def plain_segment_def)
next
  case False
  assume plain: "list_all plain_segment (split_str s CHR ''/'')"
  have "last s \<noteq> CHR ''/''"
  proof
    assume "last s = CHR ''/''"
    from last_split_from_trailing[OF False this, of "[]"]
    have "last (split_str s CHR ''/'') = []" by (simp add: split_str_def)
    moreover have "last (split_str s CHR ''/'') \<in> set (split_str s CHR ''/'')"
      by (simp add: split_str_def split_from_not_Nil)
    ultimately show False using plain by (auto simp: list_all_iff plain_segment_def)
  qed
  with False show ?thesis by simp
qed

lemma path_normalize_plain: "plain_path path \<Longrightarrow> path_normalize path = path"
proof -
  assume plain: "plain_path path"
  then have ne: "path \<noteq> []" by (simp add: plain_path_def)
  show ?thesis
  proof (cases "hd path = CHR ''/''")
    case True
    with ne obtain t where t: "path = CHR ''/'' # t" by (cases path) auto
    with plain have segs: "list_all plain_segment (split_str t CHR ''/'')"
      by (simp add: plain_path_def)
    from split_str_plain_not_trailing[OF segs] have "t \<noteq> []" "last t \<noteq> CHR ''/''" by auto
    then show ?thesis
      unfolding t path_normalize_def
      by (simp add: normalizeString_leading_slash normalizeString_plain[OF segs])
  next
    case False
    with plain have segs: "list_all plain_segment (split_str path CHR ''/'')"
      by (simp add: plain_path_def)
    from split_str_plain_not_trailing[OF segs] have "last path \<noteq> CHR ''/''" by auto
    with False ne show ?thesis
      unfolding path_normalize_def by (simp add: normalizeString_plain[OF segs])
  qed
qed

lemma split_str_append:
  "split_str (a @ CHR ''/'' # r) CHR ''/'' = split_str a CHR ''/'' @ split_str r CHR ''/''"
  by (simp add: split_str_def split_from_append)

lemma plain_path_extend:
  assumes "plain_path base" and "plain_segment seg" and "CHR ''/'' \<notin> set seg"
  shows "plain_path (base @ CHR ''/'' # seg)"
proof -
  from assms(1) have ne: "base \<noteq> []" by (simp add: plain_path_def)
  have seg: "split_str seg CHR ''/'' = [seg]"
    using assms(3) by (simp add: split_str_def split_from_no_sep)
  show ?thesis
  proof (cases "hd base = CHR ''/''")
    case True
    with ne obtain t where t: "base = CHR ''/'' # t" by (cases base) auto
    with assms(1,2) show ?thesis
      by (simp add: plain_path_def split_str_append seg)
  next
    case False
    with ne have "hd (base @ CHR ''/'' # seg) \<noteq> CHR ''/''" by simp
    with assms(1,2) False show ?thesis
      by (simp add: plain_path_def split_str_append seg)
  qed
qed

lemma basename_no_slash: "CHR ''/'' \<notin> set (basename path)"
  by (auto simp: basename_def dest: set_takeWhileD)

lemma path_join_plain:
  assumes "plain_path base" and "CHR ''/'' \<notin> set leaf"
  shows "path_join [base, ''versions'', leaf @ ''-brew'']
           = base @ ''/versions/'' @ leaf @ ''-brew''"
proof -
  from assms(1) have ne: "base \<noteq> []" by (simp add: plain_path_def)
  have seg: "plain_segment (leaf @ ''-brew'')"
    by (auto simp: plain_segment_def dest: arg_cong[where f=length])
  have "plain_path (base @ CHR ''/'' # ''versions'')"
    by (rule plain_path_extend[OF assms(1)]) (simp_all add: plain_segment_def)
  from plain_path_extend[OF this seg] assms(2)
  have "plain_path ((base @ CHR ''/'' # ''versions'') @ CHR ''/'' # leaf @ ''-brew'')" by simp
  from path_normalize_plain[OF this] ne show ?thesis
    by (simp add: path_join_def)
qed

section \<open>Symlink command builder\<close>

text \<open>
  Claim C5, as amended. For every list of paths \<open>pythonDirs\<close> and every root
  \<open>pyenvRoot\<close>, \<open>generateSymlinkCommands\<close> returns one command per input path, in the
  order of the input and without removing duplicates; the command for \<open>versionPath\<close>
  is \<open>ln -s -f\<close>, the path, and the normalised join of the root, \<open>versions\<close> and the
  base name of the path followed by \<open>-brew\<close>. When the root is a plain path, the command
  is exactly \<open>ln -s -f <versionPath> <pyenvRoot>/versions/<basename>-brew\<close>. The empty
  input yields the empty output.
\<close>

theorem generateSymlinkCommands_spec:
  "generateSymlinkCommands pythonDirs pyenvRoot
     = map (\<lambda>versionPath. ''ln -s -f '' @ versionPath @ '' '' @
              path_join [pyenvRoot, ''versions'', basename versionPath @ ''-brew''])
         pythonDirs
   \<and> length (generateSymlinkCommands pythonDirs pyenvRoot) = length pythonDirs
   \<and> (plain_path pyenvRoot \<longrightarrow>
        generateSymlinkCommands pythonDirs pyenvRoot
          = map (\<lambda>versionPath. ''ln -s -f '' @ versionPath @ '' '' @
                   pyenvRoot @ ''/versions/'' @ basename versionPath @ ''-brew'')
              pythonDirs)
   \<and> generateSymlinkCommands [] pyenvRoot = []"
  by (simp add: generateSymlinkCommands_def path_join_plain basename_no_slash)

theorem generateSymlinkCommands_witness:
  "plain_path ''/Users/test/.pyenv''
   \<and> generateSymlinkCommands
        [''/usr/local/Cellar/python@3.9/3.9.0'', ''/usr/local/Cellar/python@3.8/3.8.5'']
        ''/Users/test/.pyenv''
      = [''ln -s -f /usr/local/Cellar/python@3.9/3.9.0 /Users/test/.pyenv/versions/3.9.0-brew'',
         ''ln -s -f /usr/local/Cellar/python@3.8/3.8.5 /Users/test/.pyenv/versions/3.8.5-brew'']"
proof -
  have plain: "plain_path ''/Users/test/.pyenv''"
    by (simp add: plain_path_def split_str_def plain_segment_def)
  from generateSymlinkCommands_spec
    [of "[''/usr/local/Cellar/python@3.9/3.9.0'', ''/usr/local/Cellar/python@3.8/3.8.5'']"
        "''/Users/test/.pyenv''"] plain
  have "generateSymlinkCommands
          [''/usr/local/Cellar/python@3.9/3.9.0'', ''/usr/local/Cellar/python@3.8/3.8.5'']
          ''/Users/test/.pyenv''
        = map (\<lambda>versionPath. ''ln -s -f '' @ versionPath @ '' '' @
                 ''/Users/test/.pyenv'' @ ''/versions/'' @ basename versionPath @ ''-brew'')
            [''/usr/local/Cellar/python@3.9/3.9.0'', ''/usr/local/Cellar/python@3.8/3.8.5'']"
    by blast
  with plain show ?thesis by (simp add: basename_def)
qed

text \<open>
  The claim as it was stated fails for a root with a trailing slash: the join is
  normalised, so the command has one slash where the stated string has two.
\<close>

theorem generateSymlinkCommands_counterexample:
  "generateSymlinkCommands [''/usr/local/Cellar/python@3.9/3.9.0''] ''/Users/test/.pyenv/''
     = [''ln -s -f /usr/local/Cellar/python@3.9/3.9.0 /Users/test/.pyenv/versions/3.9.0-brew'']
   \<and> generateSymlinkCommands [''/usr/local/Cellar/python@3.9/3.9.0''] ''/Users/test/.pyenv/''
     \<noteq> [''ln -s -f '' @ ''/usr/local/Cellar/python@3.9/3.9.0'' @ '' '' @ ''/Users/test/.pyenv/''
          @ ''/versions/'' @ basename ''/usr/local/Cellar/python@3.9/3.9.0'' @ ''-brew'']"
  by (simp add: generateSymlinkCommands_def path_join_def path_normalize_def normalizeString_def
      split_str_def normalize_segment_def basename_def)

section \<open>The loops of the asynchronous operations\<close>

text \<open>
  A loop that awaits a command in every round runs its rounds as long as the command
  exits with status zero, and ends with the first command that does not.
\<close>

lemma reinstallBrewPackages_run:
  "reinstallBrewPackages env pkgs w =
     (let ok = (\<lambda>pkg. exitCode (run env [Lit ''brew reinstall '', Val (package.name pkg),
                                           Lit '' 2>/dev/null'']) = 0)
      in (case dropWhile ok pkgs of
            [] \<Rightarrow> Inr ()
          | pkg # _ \<Rightarrow> Inl (ShellError (exitCode (run env [Lit ''brew reinstall '',
                                  Val (package.name pkg), Lit '' 2>/dev/null'']))),
          w\<lparr>trace := trace w
             @ concat (map (\<lambda>pkg. [Shell [Lit ''brew reinstall '', Val (package.name pkg),
                                           Lit '' 2>/dev/null''],
                                   LogInfo (''Reinstalled Brew package: '' @ package.name pkg)])
                        (takeWhile ok pkgs))
             @ (case dropWhile ok pkgs of
                  [] \<Rightarrow> []
                | pkg # _ \<Rightarrow> [Shell [Lit ''brew reinstall '', Val (package.name pkg),
                                      Lit '' 2>/dev/null'']])\<rparr>))"
  by (induction pkgs arbitrary: w) (simp_all add: shell_def logger_info_def Let_def)

lemma createSymlinks_for_run:
  "createSymlinks_for env cmds w =
     (let ok = (\<lambda>cmd. exitCode (run env [Lit '''', Val cmd, Lit '''']) = 0)
      in (case dropWhile ok cmds of
            [] \<Rightarrow> Inr ()
          | cmd # _ \<Rightarrow> Inl (ShellError (exitCode (run env [Lit '''', Val cmd, Lit '''']))),
          w\<lparr>trace := trace w
             @ concat (map (\<lambda>cmd. [Shell [Lit '''', Val cmd, Lit ''''],
                                   LogInfo (''Executed symlink command: '' @ cmd)])
                        (takeWhile ok cmds))
             @ (case dropWhile ok cmds of
                  [] \<Rightarrow> []
                | cmd # _ \<Rightarrow> [Shell [Lit '''', Val cmd, Lit '''']])\<rparr>))"
  by (induction cmds arbitrary: w) (simp_all add: shell_def logger_info_def Let_def)

lemma fetchBrewFormulae_for_ok:
  "\<forall>n\<in>set names. info_formulae env n = Some (arr n) \<Longrightarrow>
   fetchBrewFormulae_for env names acc w =
     (Inr (acc @ map (\<lambda>n. first_or_undefined (arr n)) names),
      w\<lparr>trace := trace w
         @ map (\<lambda>n. Shell [Lit ''brew info '', Val n, Lit '' --json=v2 2>/dev/null'']) names\<rparr>)"
proof (induction names arbitrary: acc w)
  case Nil
  show ?case by simp
next
  case (Cons n names)
  from Cons.prems have n: "info_formulae env n = Some (arr n)" by simp
  from Cons.prems have rest: "\<forall>m\<in>set names. info_formulae env m = Some (arr m)" by simp
  from n obtain props where
    exit: "exitCode (run env [Lit ''brew info '', Val n, Lit '' --json=v2 2>/dev/null'']) = 0" and
    parsed: "JSON_parse env (stdout (run env [Lit ''brew info '', Val n,
               Lit '' --json=v2 2>/dev/null''])) = Some (JObject props)" and
    formulae: "map_of props ''formulae'' = Some (JArray (arr n))"
    by (auto simp: info_formulae_def Let_def split: if_splits option.splits js.splits)
  show ?case
    by (simp add: shell_json_def shell_def exit parsed formulae Cons.IH[OF rest]
        first_or_undefined_def)
qed

lemma fetchBrewFormulae_ok:
  assumes "exitCode (run env [Lit ''brew list --formula'']) = 0"
    and "\<forall>n\<in>set (filter (\<lambda>l. l \<noteq> [])
            (split_str (stdout (run env [Lit ''brew list --formula''])) CHR 0x0A)).
          info_formulae env n = Some (arr n)"
  shows "fetchBrewFormulae env w =
     (Inr (map (\<lambda>n. first_or_undefined (arr n))
             (filter (\<lambda>l. l \<noteq> [])
                (split_str (stdout (run env [Lit ''brew list --formula''])) CHR 0x0A))),
      w\<lparr>trace := trace w
         @ Shell [Lit ''brew list --formula'']
         # map (\<lambda>n. Shell [Lit ''brew info '', Val n, Lit '' --json=v2 2>/dev/null''])
             (filter (\<lambda>l. l \<noteq> [])
                (split_str (stdout (run env [Lit ''brew list --formula''])) CHR 0x0A))\<rparr>)"
proof -
  have B: "Boolean = (\<lambda>l. l \<noteq> [])" by (rule ext) (simp add: Boolean_def)
  show ?thesis
    unfolding fetchBrewFormulae_def B
    by (simp add: shell_def assms(1) Let_def fetchBrewFormulae_for_ok[OF assms(2)])
qed

section \<open>Reinstalling the dependent packages\<close>

text \<open>
  Claim C1, as amended. In \<open>reinstallBrewPackages\<close>, for every list of classified
  packages, the reinstall command is invoked once per package, in the order of the
  input, and the success message of a package is logged right after its command, as
  long as each command exits with status zero. The first command that exits with
  another status rejects: redirecting its standard error does not keep the gateway
  from signalling the failure. The rejection ends the loop: the package that failed
  gets no success message, and no later package is reinstalled. When every command
  exits with status zero, every package is reinstalled and logged.
\<close>

theorem reinstallBrewPackages_until_failure:
  "(let ok = (\<lambda>pkg. exitCode (run env [Lit ''brew reinstall '', Val (package.name pkg),
                                        Lit '' 2>/dev/null'']) = 0);
        reinstalled = takeWhile ok brewPackages;
        remaining = dropWhile ok brewPackages
    in reinstallBrewPackages env brewPackages w =
         (case remaining of
            [] \<Rightarrow> Inr ()
          | pkg # _ \<Rightarrow> Inl (ShellError (exitCode (run env [Lit ''brew reinstall '',
                                  Val (package.name pkg), Lit '' 2>/dev/null'']))),
          w\<lparr>trace := trace w
             @ concat (map (\<lambda>pkg. [Shell [Lit ''brew reinstall '', Val (package.name pkg),
                                           Lit '' 2>/dev/null''],
                                   LogInfo (''Reinstalled Brew package: '' @ package.name pkg)])
                        reinstalled)
             @ (case remaining of
                  [] \<Rightarrow> []
                | pkg # _ \<Rightarrow> [Shell [Lit ''brew reinstall '', Val (package.name pkg),
                                      Lit '' 2>/dev/null'']])\<rparr>)
       \<and> ((\<forall>pkg\<in>set brewPackages. ok pkg) \<longrightarrow>
            reinstallBrewPackages env brewPackages w =
              (Inr (),
               w\<lparr>trace := trace w
                  @ concat (map (\<lambda>pkg. [Shell [Lit ''brew reinstall '', Val (package.name pkg),
                                                Lit '' 2>/dev/null''],
                                        LogInfo (''Reinstalled Brew package: ''
                                                 @ package.name pkg)])
                             brewPackages)\<rparr>)))"
proof -
  let ?ok = "\<lambda>pkg. exitCode (run env [Lit ''brew reinstall '', Val (package.name pkg),
                                      Lit '' 2>/dev/null'']) = 0"
  have all: "(\<forall>pkg\<in>set brewPackages. ?ok pkg) \<Longrightarrow>
      takeWhile ?ok brewPackages = brewPackages \<and> dropWhile ?ok brewPackages = []"
    by simp
  show ?thesis
    unfolding Let_def
  proof (intro conjI impI)
    show "reinstallBrewPackages env brewPackages w =
         (case dropWhile ?ok brewPackages of
            [] \<Rightarrow> Inr ()
          | pkg # _ \<Rightarrow> Inl (ShellError (exitCode (run env [Lit ''brew reinstall '',
                                  Val (package.name pkg), Lit '' 2>/dev/null'']))),
          w\<lparr>trace := trace w
             @ concat (map (\<lambda>pkg. [Shell [Lit ''brew reinstall '', Val (package.name pkg),
                                           Lit '' 2>/dev/null''],
                                   LogInfo (''Reinstalled Brew package: '' @ package.name pkg)])
                        (takeWhile ?ok brewPackages))
             @ (case dropWhile ?ok brewPackages of
                  [] \<Rightarrow> []
                | pkg # _ \<Rightarrow> [Shell [Lit ''brew reinstall '', Val (package.name pkg),
                                      Lit '' 2>/dev/null'']])\<rparr>)"
      using reinstallBrewPackages_run[of env brewPackages w] unfolding Let_def .
  next
    assume ok: "\<forall>pkg\<in>set brewPackages. ?ok pkg"
    show "reinstallBrewPackages env brewPackages w =
              (Inr (),
               w\<lparr>trace := trace w
                  @ concat (map (\<lambda>pkg. [Shell [Lit ''brew reinstall '', Val (package.name pkg),
                                                Lit '' 2>/dev/null''],
                                        LogInfo (''Reinstalled Brew package: ''
                                                 @ package.name pkg)])
                             brewPackages)\<rparr>)"
      using reinstallBrewPackages_run[of env brewPackages w] all[OF ok]
      unfolding Let_def by simp
  qed
qed

theorem reinstallBrewPackages_witness:
  "exitCode (run all_succeed [Lit ''brew reinstall '', Val ''certbot'', Lit '' 2>/dev/null'']) = 0
   \<and> exitCode (run all_succeed [Lit ''brew reinstall '', Val ''numpy'', Lit '' 2>/dev/null'']) = 0
   \<and> fst (reinstallBrewPackages all_succeed
        [\<lparr>package.name = ''certbot'', version = ''2.0.0'',
           dependencies = [''openssl'', ''python@3.9'']\<rparr>,
         \<lparr>package.name = ''numpy'', version = ''1.21.0'', dependencies = [''python@3.9'']\<rparr>]
        initial_world) = Inr ()
   \<and> trace (snd (reinstallBrewPackages all_succeed
        [\<lparr>package.name = ''certbot'', version = ''2.0.0'',
           dependencies = [''openssl'', ''python@3.9'']\<rparr>,
         \<lparr>package.name = ''numpy'', version = ''1.21.0'', dependencies = [''python@3.9'']\<rparr>]
        initial_world))
      = [Shell [Lit ''brew reinstall '', Val ''certbot'', Lit '' 2>/dev/null''],
         LogInfo ''Reinstalled Brew package: certbot'',
         Shell [Lit ''brew reinstall '', Val ''numpy'', Lit '' 2>/dev/null''],
         LogInfo ''Reinstalled Brew package: numpy'']"
proof -
  have ok: "\<forall>pkg\<in>set [\<lparr>package.name = ''certbot'', version = ''2.0.0'',
           dependencies = [''openssl'', ''python@3.9'']\<rparr>,
         \<lparr>package.name = ''numpy'', version = ''1.21.0'', dependencies = [''python@3.9'']\<rparr>].
       exitCode (run all_succeed [Lit ''brew reinstall '', Val (package.name pkg),
                                  Lit '' 2>/dev/null'']) = 0"
    by (simp add: all_succeed_def)
  from reinstallBrewPackages_until_failure[of all_succeed
      "[\<lparr>package.name = ''certbot'', version = ''2.0.0'',
           dependencies = [''openssl'', ''python@3.9'']\<rparr>,
         \<lparr>package.name = ''numpy'', version = ''1.21.0'', dependencies = [''python@3.9'']\<rparr>]"
      initial_world, unfolded Let_def, THEN conjunct2, THEN mp, OF ok]
  show ?thesis
    by (simp add: initial_world_def all_succeed_def)
qed

text \<open>
  The claim as it was stated fails: when \<^verbatim>\<open>brew reinstall certbot\<close> exits with status 1,
  the function rejects, nothing is logged, and the next package is never reinstalled.
\<close>

theorem reinstallBrewPackages_counterexample:
  "exitCode (run certbot_reinstall_fails
       [Lit ''brew reinstall '', Val ''certbot'', Lit '' 2>/dev/null'']) = 1
   \<and> fst (reinstallBrewPackages certbot_reinstall_fails
        [\<lparr>package.name = ''certbot'', version = ''2.0.0'',
           dependencies = [''openssl'', ''python@3.9'']\<rparr>,
         \<lparr>package.name = ''numpy'', version = ''1.21.0'', dependencies = [''python@3.9'']\<rparr>]
        initial_world) = Inl (ShellError 1)
   \<and> trace (snd (reinstallBrewPackages certbot_reinstall_fails
        [\<lparr>package.name = ''certbot'', version = ''2.0.0'',
           dependencies = [''openssl'', ''python@3.9'']\<rparr>,
         \<lparr>package.name = ''numpy'', version = ''1.21.0'', dependencies = [''python@3.9'']\<rparr>]
        initial_world))
      = [Shell [Lit ''brew reinstall '', Val ''certbot'', Lit '' 2>/dev/null'']]
   \<and> Shell [Lit ''brew reinstall '', Val ''numpy'', Lit '' 2>/dev/null'']
      \<notin> set (trace (snd (reinstallBrewPackages certbot_reinstall_fails
        [\<lparr>package.name = ''certbot'', version = ''2.0.0'',
           dependencies = [''openssl'', ''python@3.9'']\<rparr>,
         \<lparr>package.name = ''numpy'', version = ''1.21.0'', dependencies = [''python@3.9'']\<rparr>]
        initial_world)))"
  by (simp add: certbot_reinstall_fails_def initial_world_def shell_def logger_info_def)

section \<open>Creating the symlinks\<close>

text \<open>
  Claim C7 says that \<open>createSymlinks\<close> executes the symlink commands one after the
  other in the order of the list, logs each execution, and invokes the rehash command
  of the version manager exactly once, after all of them; the repository's test of
  \<open>createSymlinks\<close> expects the same three commands. The code does not do this. It
  passes each command line to the shell as a single interpolated value, which the
  shell takes as one word; and whenever the first command exits with a status other
  than zero, as a command that is not found does, \<open>createSymlinks\<close> rejects there:
  the trace gains that one command and nothing else, so nothing is logged, no later
  symlink command is run, and rehash is never invoked.
\<close>

theorem createSymlinks_rejects_at_first_command:
  "exitCode (run env [Lit '''', Val cmd, Lit '''']) \<noteq> 0 \<longrightarrow>
     createSymlinks env (cmd # symlinkCommands) w =
       (Inl (ShellError (exitCode (run env [Lit '''', Val cmd, Lit '''']))),
        w\<lparr>trace := trace w @ [Shell [Lit '''', Val cmd, Lit '''']]\<rparr>)"
  by (simp add: createSymlinks_def shell_def Let_def)

theorem createSymlinks_rejects_witness:
  "exitCode (run whole_line_as_one_word [Lit '''',
       Val ''ln -s -f /usr/local/Cellar/python@3.9/3.9.0 /Users/test/.pyenv/versions/3.9.0-brew'',
       Lit '''']) = 1
   \<and> fst (createSymlinks whole_line_as_one_word
        [''ln -s -f /usr/local/Cellar/python@3.9/3.9.0 /Users/test/.pyenv/versions/3.9.0-brew'',
         ''ln -s -f /usr/local/Cellar/python@3.8/3.8.5 /Users/test/.pyenv/versions/3.8.5-brew'']
        initial_world) = Inl (ShellError 1)
   \<and> trace (snd (createSymlinks whole_line_as_one_word
        [''ln -s -f /usr/local/Cellar/python@3.9/3.9.0 /Users/test/.pyenv/versions/3.9.0-brew'',
         ''ln -s -f /usr/local/Cellar/python@3.8/3.8.5 /Users/test/.pyenv/versions/3.8.5-brew'']
        initial_world))
      = [Shell [Lit '''',
           Val ''ln -s -f /usr/local/Cellar/python@3.9/3.9.0 /Users/test/.pyenv/versions/3.9.0-brew'',
           Lit '''']]
   \<and> Shell [Lit ''pyenv rehash'']
      \<notin> set (trace (snd (createSymlinks whole_line_as_one_word
        [''ln -s -f /usr/local/Cellar/python@3.9/3.9.0 /Users/test/.pyenv/versions/3.9.0-brew'',
         ''ln -s -f /usr/local/Cellar/python@3.8/3.8.5 /Users/test/.pyenv/versions/3.8.5-brew'']
        initial_world)))"
proof -
  have failed: "exitCode (run whole_line_as_one_word [Lit '''',
       Val ''ln -s -f /usr/local/Cellar/python@3.9/3.9.0 /Users/test/.pyenv/versions/3.9.0-brew'',
       Lit '''']) = 1"
    by (simp add: whole_line_as_one_word_def)
  then have nonzero: "exitCode (run whole_line_as_one_word [Lit '''',
       Val ''ln -s -f /usr/local/Cellar/python@3.9/3.9.0 /Users/test/.pyenv/versions/3.9.0-brew'',
       Lit '''']) \<noteq> 0"
    by simp
  note rejected = createSymlinks_rejects_at_first_command[of whole_line_as_one_word
      "''ln -s -f /usr/local/Cellar/python@3.9/3.9.0 /Users/test/.pyenv/versions/3.9.0-brew''"
      "[''ln -s -f /usr/local/Cellar/python@3.8/3.8.5 /Users/test/.pyenv/versions/3.8.5-brew'']"
      initial_world, THEN mp, OF nonzero]
  show ?thesis
    unfolding rejected using failed by (simp add: initial_world_def)
qed

section \<open>Installing the equivalent versions\<close>

text \<open>
  Claim C9. In \<open>installPyenvVersions\<close>, the bare version passed to the install command
  of the version manager is the input string with its first occurrence of the
  substring \<open>python@\<close> removed, wherever it occurs and not only as a leading prefix: for
  an input that begins with \<open>python@\<close> it is what follows the prefix, an input without
  the substring is passed unchanged, and for \<open>my-python@3.9\<close> the occurrence inside
  the string is removed, which gives \<open>my-3.9\<close>.
\<close>

theorem installPyenvVersions_bare_version:
  "take (length (trace w) + length pythonVersions)
        (trace (snd (installPyenvVersions env pythonVersions w)))
     = trace w @ map (\<lambda>v. Shell [Lit ''pyenv install -s '',
                                  Val (replace v ''python@'' ''''), Lit ''''])
                   pythonVersions
   \<and> (occurs_at v ''python@'' i \<and> (\<forall>j<i. \<not> occurs_at v ''python@'' j) \<longrightarrow>
        replace v ''python@'' '''' = take i v @ drop (i + 7) v)
   \<and> ((\<forall>j. \<not> occurs_at v ''python@'' j) \<longrightarrow> replace v ''python@'' '''' = v)
   \<and> (startsWith v ''python@'' \<longrightarrow> replace v ''python@'' '''' = drop 7 v)
   \<and> replace ''my-python@3.9'' ''python@'' '''' = ''my-3.9''"
proof -
  have calls: "take (length (trace w) + length pythonVersions)
        (trace (snd (installPyenvVersions env pythonVersions w)))
     = trace w @ map (\<lambda>v. Shell [Lit ''pyenv install -s '',
                                  Val (replace v ''python@'' ''''), Lit ''''])
                   pythonVersions"
    by (simp add: installPyenvVersions_def Let_def logger_info_def comp_def)
  have first: "occurs_at v ''python@'' i \<and> (\<forall>j<i. \<not> occurs_at v ''python@'' j) \<longrightarrow>
        replace v ''python@'' '''' = take i v @ drop (i + 7) v"
  proof (intro impI, elim conjE)
    assume occ: "occurs_at v ''python@'' i" and first: "\<forall>j<i. \<not> occurs_at v ''python@'' j"
    have len: "length ''python@'' = 7" by simp
    from replace_first_occurrence[OF occ first, of "''''"]
    show "replace v ''python@'' '''' = take i v @ drop (i + 7) v"
      unfolding len by (simp only: append_Nil)
  qed
  have absent: "(\<forall>j. \<not> occurs_at v ''python@'' j) \<longrightarrow> replace v ''python@'' '''' = v"
    using replace_no_occurrence[of v "''python@''" "''''"] by simp
  have leading: "startsWith v ''python@'' \<longrightarrow> replace v ''python@'' '''' = drop 7 v"
  proof
    assume lead: "startsWith v ''python@''"
    have len: "length ''python@'' = 7" by simp
    from replace_startsWith[OF lead, of "''''"]
    show "replace v ''python@'' '''' = drop 7 v"
      unfolding len by (simp only: append_Nil)
  qed
  have inner: "replace ''my-python@3.9'' ''python@'' '''' = ''my-3.9''"
    by simp
  from calls first absent leading inner show ?thesis by blast
qed

theorem installPyenvVersions_witness:
  "occurs_at ''my-python@3.9'' ''python@'' 3
   \<and> \<not> occurs_at ''my-python@3.9'' ''python@'' 0
   \<and> \<not> occurs_at ''my-python@3.9'' ''python@'' 1
   \<and> \<not> occurs_at ''my-python@3.9'' ''python@'' 2
   \<and> replace ''my-python@3.9'' ''python@'' '''' = ''my-'' @ ''3.9''
   \<and> trace (snd (installPyenvVersions all_succeed [''python@3.9'', ''my-python@3.9'']
                   initial_world))
      = [Shell [Lit ''pyenv install -s '', Val ''3.9'', Lit ''''],
         Shell [Lit ''pyenv install -s '', Val ''my-3.9'', Lit ''''],
         LogInfo ''Installed equivalent pyenv-managed Python versions.'']"
proof -
  have occ: "occurs_at ''my-python@3.9'' ''python@'' 3"
    by (simp add: occurs_at_def numeral_3_eq_3)
  have before: "\<not> occurs_at ''my-python@3.9'' ''python@'' 0"
    "\<not> occurs_at ''my-python@3.9'' ''python@'' 1"
    "\<not> occurs_at ''my-python@3.9'' ''python@'' 2"
    by (simp_all add: occurs_at_def numeral_2_eq_2)
  have "\<forall>j<3. \<not> occurs_at ''my-python@3.9'' ''python@'' j"
  proof (intro allI impI)
    fix j :: nat assume "j < 3"
    then have "j = 0 \<or> j = 1 \<or> j = 2" by arith
    with before show "\<not> occurs_at ''my-python@3.9'' ''python@'' j" by auto
  qed
  with occ installPyenvVersions_bare_version
    [of initial_world "[]" all_succeed "''my-python@3.9''" 3,
     THEN conjunct2, THEN conjunct1]
  have "replace ''my-python@3.9'' ''python@'' ''''
      = take 3 ''my-python@3.9'' @ drop (3 + 7) ''my-python@3.9''"
    by blast
  then have removed: "replace ''my-python@3.9'' ''python@'' '''' = ''my-'' @ ''3.9''"
    by simp
  have run: "trace (snd (installPyenvVersions all_succeed [''python@3.9'', ''my-python@3.9'']
                   initial_world))
      = [Shell [Lit ''pyenv install -s '', Val ''3.9'', Lit ''''],
         Shell [Lit ''pyenv install -s '', Val ''my-3.9'', Lit ''''],
         LogInfo ''Installed equivalent pyenv-managed Python versions.'']"
    by (simp add: installPyenvVersions_def Let_def logger_info_def initial_world_def
        all_succeed_def)
  from occ before removed run show ?thesis by blast
qed

section \<open>Fetching the formulae\<close>

text \<open>
  Claim C2. For every text output of the list command, \<open>fetchBrewFormulae\<close> splits it
  on line breaks and discards the empty lines; it issues exactly one \<open>info\<close> invocation
  per remaining name, in order, after the one \<open>list\<close> invocation, which makes 1 + N
  invocations of the gateway for N names; and it returns, in the order of the names,
  the first element of the \<open>formulae\<close> array of each \<open>info\<close> result: one entry per listed
  name. (The commands are taken to succeed and each \<open>info\<close> result to be an object with
  a \<open>formulae\<close> array; \<open>arr n\<close> is that array for the name \<open>n\<close>.)
\<close>

theorem fetchBrewFormulae_spec:
  assumes "exitCode (run env [Lit ''brew list --formula'']) = 0"
    and "\<forall>n\<in>set (filter (\<lambda>l. l \<noteq> [])
            (split_str (stdout (run env [Lit ''brew list --formula''])) CHR 0x0A)).
          info_formulae env n = Some (arr n)"
  shows "(let out = stdout (run env [Lit ''brew list --formula'']);
              lines = split_str out CHR 0x0A;
              names = filter (\<lambda>l. l \<noteq> []) lines
          in join_str lines [CHR 0x0A] = out
             \<and> (\<forall>l\<in>set lines. CHR 0x0A \<notin> set l)
             \<and> fetchBrewFormulae env w =
                 (Inr (map (\<lambda>n. first_or_undefined (arr n)) names),
                  w\<lparr>trace := trace w
                     @ Shell [Lit ''brew list --formula'']
                     # map (\<lambda>n. Shell [Lit ''brew info '', Val n,
                                        Lit '' --json=v2 2>/dev/null'']) names\<rparr>)
             \<and> length (trace (snd (fetchBrewFormulae env w)))
                 = length (trace w) + (1 + length names))"
proof -
  let ?out = "stdout (run env [Lit ''brew list --formula''])"
  have joined: "join_str (split_str ?out CHR 0x0A) [CHR 0x0A] = ?out"
    by (rule join_split_str)
  have pieces: "\<forall>l\<in>set (split_str ?out CHR 0x0A). CHR 0x0A \<notin> set l"
    by (rule split_str_pieces)
  note run = fetchBrewFormulae_ok[OF assms, of w]
  have count: "length (trace (snd (fetchBrewFormulae env w)))
      = length (trace w) + (1 + length (filter (\<lambda>l. l \<noteq> []) (split_str ?out CHR 0x0A)))"
    unfolding run by simp
  from joined pieces run count show ?thesis
    unfolding Let_def by blast
qed

theorem fetchBrewFormulae_witness:
  "exitCode (run three_formulae [Lit ''brew list --formula'']) = 0
   \<and> info_formulae three_formulae ''formula1'' = Some [JObject [(''name'', JString ''formula1'')]]
   \<and> info_formulae three_formulae ''formula2'' = Some [JObject [(''name'', JString ''formula1'')]]
   \<and> info_formulae three_formulae ''formula3'' = Some [JObject [(''name'', JString ''formula1'')]]
   \<and> fst (fetchBrewFormulae three_formulae initial_world)
      = Inr [JObject [(''name'', JString ''formula1'')],
             JObject [(''name'', JString ''formula1'')],
             JObject [(''name'', JString ''formula1'')]]
   \<and> trace (snd (fetchBrewFormulae three_formulae initial_world))
      = [Shell [Lit ''brew list --formula''],
         Shell [Lit ''brew info '', Val ''formula1'', Lit '' --json=v2 2>/dev/null''],
         Shell [Lit ''brew info '', Val ''formula2'', Lit '' --json=v2 2>/dev/null''],
         Shell [Lit ''brew info '', Val ''formula3'', Lit '' --json=v2 2>/dev/null'']]"
proof -
  have list_ok: "exitCode (run three_formulae [Lit ''brew list --formula'']) = 0"
    by (simp add: three_formulae_def)
  have names: "filter (\<lambda>l. l \<noteq> [])
      (split_str (stdout (run three_formulae [Lit ''brew list --formula''])) CHR 0x0A)
      = [''formula1'', ''formula2'', ''formula3'']"
    by (simp add: three_formulae_def split_str_def)
  have info: "info_formulae three_formulae n = Some [JObject [(''name'', JString ''formula1'')]]"
    for n
    by (simp add: info_formulae_def three_formulae_def sample_parse_def)
  have infos: "\<forall>n\<in>set (filter (\<lambda>l. l \<noteq> [])
      (split_str (stdout (run three_formulae [Lit ''brew list --formula''])) CHR 0x0A)).
      info_formulae three_formulae n
        = Some ((\<lambda>n. [JObject [(''name'', JString ''formula1'')]]) n)"
    by (simp add: info)
  note spec = fetchBrewFormulae_spec[OF list_ok infos, of initial_world, unfolded Let_def names]
  from spec have run: "fetchBrewFormulae three_formulae initial_world =
      (Inr (map (\<lambda>n. first_or_undefined [JObject [(''name'', JString ''formula1'')]])
              [''formula1'', ''formula2'', ''formula3'']),
       initial_world\<lparr>trace := trace initial_world
          @ Shell [Lit ''brew list --formula'']
          # map (\<lambda>n. Shell [Lit ''brew info '', Val n, Lit '' --json=v2 2>/dev/null''])
              [''formula1'', ''formula2'', ''formula3'']\<rparr>)"
    by blast
  have result: "fst (fetchBrewFormulae three_formulae initial_world)
      = Inr [JObject [(''name'', JString ''formula1'')],
             JObject [(''name'', JString ''formula1'')],
             JObject [(''name'', JString ''formula1'')]]"
    unfolding run by (simp add: first_or_undefined_def)
  have events: "trace (snd (fetchBrewFormulae three_formulae initial_world))
      = [Shell [Lit ''brew list --formula''],
         Shell [Lit ''brew info '', Val ''formula1'', Lit '' --json=v2 2>/dev/null''],
         Shell [Lit ''brew info '', Val ''formula2'', Lit '' --json=v2 2>/dev/null''],
         Shell [Lit ''brew info '', Val ''formula3'', Lit '' --json=v2 2>/dev/null'']]"
    unfolding run by (simp add: initial_world_def)
  from list_ok info result events show ?thesis by blast
qed

text \<open>
  Claim C10. When an \<open>info\<close> invocation of \<open>fetchBrewFormulae\<close> parses successfully but
  its \<open>formulae\<close> array is empty, the function raises no error: it appends the absent
  first element, \<open>undefined\<close>, to the list and goes on with the remaining names, so the
  list it returns can contain an entry that is not a Formula record (reading a field
  of that entry throws).
\<close>

theorem fetchBrewFormulae_empty_array:
  assumes "exitCode (run env [Lit ''brew list --formula'']) = 0"
    and "filter (\<lambda>l. l \<noteq> [])
           (split_str (stdout (run env [Lit ''brew list --formula''])) CHR 0x0A)
         = earlier @ n # later"
    and "\<forall>m\<in>set (earlier @ n # later). info_formulae env m = Some (arr m)"
    and "arr n = []"
  shows "fst (fetchBrewFormulae env w)
           = Inr (map (\<lambda>m. first_or_undefined (arr m)) earlier
                  @ JUndefined # map (\<lambda>m. first_or_undefined (arr m)) later)
         \<and> \<not> is_Formula JUndefined
         \<and> get_property JUndefined ''dependencies'' = Inl TypeError
         \<and> trace (snd (fetchBrewFormulae env w))
           = trace w @ Shell [Lit ''brew list --formula'']
             # map (\<lambda>m. Shell [Lit ''brew info '', Val m, Lit '' --json=v2 2>/dev/null''])
                 (earlier @ n # later)"
proof -
  from assms(3) have infos: "\<forall>m\<in>set (filter (\<lambda>l. l \<noteq> [])
           (split_str (stdout (run env [Lit ''brew list --formula''])) CHR 0x0A)).
         info_formulae env m = Some (arr m)"
    unfolding assms(2) .
  note run = fetchBrewFormulae_ok[OF assms(1) infos, of w, unfolded assms(2)]
  show ?thesis
    unfolding run by (simp add: first_or_undefined_def assms(4))
qed

theorem fetchBrewFormulae_empty_array_witness:
  "exitCode (run no_match_for_formula2 [Lit ''brew list --formula'']) = 0
   \<and> info_formulae no_match_for_formula2 ''formula2'' = Some []
   \<and> fst (fetchBrewFormulae no_match_for_formula2 initial_world)
      = Inr [JObject [(''name'', JString ''formula1'')],
             JUndefined,
             JObject [(''name'', JString ''formula1'')]]
   \<and> trace (snd (fetchBrewFormulae no_match_for_formula2 initial_world))
      = [Shell [Lit ''brew list --formula''],
         Shell [Lit ''brew info '', Val ''formula1'', Lit '' --json=v2 2>/dev/null''],
         Shell [Lit ''brew info '', Val ''formula2'', Lit '' --json=v2 2>/dev/null''],
         Shell [Lit ''brew info '', Val ''formula3'', Lit '' --json=v2 2>/dev/null'']]"
proof -
  let ?arr = "\<lambda>m. if m = ''formula2'' then [] else [JObject [(''name'', JString ''formula1'')]]"
  have list_ok: "exitCode (run no_match_for_formula2 [Lit ''brew list --formula'']) = 0"
    by (simp add: no_match_for_formula2_def)
  have names: "filter (\<lambda>l. l \<noteq> [])
      (split_str (stdout (run no_match_for_formula2 [Lit ''brew list --formula''])) CHR 0x0A)
      = [''formula1''] @ ''formula2'' # [''formula3'']"
    by (simp add: no_match_for_formula2_def split_str_def)
  have info: "info_formulae no_match_for_formula2 m = Some (?arr m)" for m
    by (simp add: info_formulae_def no_match_for_formula2_def sample_parse_def)
  have infos: "\<forall>m\<in>set ([''formula1''] @ ''formula2'' # [''formula3'']).
      info_formulae no_match_for_formula2 m = Some (?arr m)"
    using info by blast
  have empty: "?arr ''formula2'' = []" by simp
  note spec = fetchBrewFormulae_empty_array[OF list_ok names infos empty, of initial_world]
  from spec have result: "fst (fetchBrewFormulae no_match_for_formula2 initial_world)
      = Inr [JObject [(''name'', JString ''formula1'')],
             JUndefined,
             JObject [(''name'', JString ''formula1'')]]"
    by (simp add: first_or_undefined_def)
  from spec have events: "trace (snd (fetchBrewFormulae no_match_for_formula2 initial_world))
      = [Shell [Lit ''brew list --formula''],
         Shell [Lit ''brew info '', Val ''formula1'', Lit '' --json=v2 2>/dev/null''],
         Shell [Lit ''brew info '', Val ''formula2'', Lit '' --json=v2 2>/dev/null''],
         Shell [Lit ''brew info '', Val ''formula3'', Lit '' --json=v2 2>/dev/null'']]"
    by (simp add: initial_world_def)
  from list_ok info[of "''formula2''"] result events show ?thesis by simp
qed

section \<open>Updating the shell profile\<close>

text \<open>
  Claim C8. For every profile path, \<open>updateZshrc\<close> appends to that file exactly the
  literal snippet: a line break, the four lines of the \<^verbatim>\<open>if\<close> block and a line break
  after \<^verbatim>\<open>fi\<close>, byte for byte; and it emits exactly one log message, with the text
  \<open>Updated .zshrc to prioritize pyenv over Brew-managed Python.\<close> (The append is taken
  to succeed; when the file cannot be appended to, the function rejects and neither
  writes nor logs.)
\<close>

theorem updateZshrc_spec:
  \<open>(let snippet = CHR 0x0A # ''if command -v pyenv 1>/dev/null 2>&1; then''
                  @ CHR 0x0A # ''  eval "$(pyenv init --path)"''
                  @ CHR 0x0A # ''  eval "$(pyenv init -)"''
                  @ CHR 0x0A # ''fi''
                  @ [CHR 0x0A]
    in zshrcContent = snippet
       \<and> (writable env zshrcPath \<longrightarrow>
            updateZshrc env zshrcPath w =
              (Inr (),
               w\<lparr>trace := trace w
                    @ [AppendFile zshrcPath snippet,
                       LogInfo ''Updated .zshrc to prioritize pyenv over Brew-managed Python.''],
                 files := (files w)(zshrcPath \<mapsto>
                    (case files w zshrcPath of None \<Rightarrow> [] | Some old \<Rightarrow> old) @ snippet)\<rparr>))
       \<and> (\<not> writable env zshrcPath \<longrightarrow>
            updateZshrc env zshrcPath w = (Inl SystemError, w)))\<close>
  by (simp add: updateZshrc_def appendFile_def logger_info_def zshrcContent_def Let_def)

theorem updateZshrc_witness:
  \<open>writable all_succeed ''/Users/test/.zshrc''
   \<and> fst (updateZshrc all_succeed ''/Users/test/.zshrc'' initial_world) = Inr ()
   \<and> trace (snd (updateZshrc all_succeed ''/Users/test/.zshrc'' initial_world))
      = [AppendFile ''/Users/test/.zshrc''
           (CHR 0x0A # ''if command -v pyenv 1>/dev/null 2>&1; then''
            @ CHR 0x0A # ''  eval "$(pyenv init --path)"''
            @ CHR 0x0A # ''  eval "$(pyenv init -)"''
            @ CHR 0x0A # ''fi''
            @ [CHR 0x0A]),
         LogInfo ''Updated .zshrc to prioritize pyenv over Brew-managed Python.'']
   \<and> files (snd (updateZshrc all_succeed ''/Users/test/.zshrc'' initial_world))
        ''/Users/test/.zshrc''
      = Some (CHR 0x0A # ''if command -v pyenv 1>/dev/null 2>&1; then''
            @ CHR 0x0A # ''  eval "$(pyenv init --path)"''
            @ CHR 0x0A # ''  eval "$(pyenv init -)"''
            @ CHR 0x0A # ''fi''
            @ [CHR 0x0A])\<close>
proof -
  have ok: "writable all_succeed ''/Users/test/.zshrc''"
    by (simp add: all_succeed_def)
  note spec = updateZshrc_spec[of all_succeed "''/Users/test/.zshrc''" initial_world,
      unfolded Let_def, THEN conjunct2, THEN conjunct1, THEN mp, OF ok]
  show ?thesis
    unfolding spec using ok by (simp add: initial_world_def)
qed

end
